theory Spec2Isabelle
  imports Complex_Main
begin

text \<open>
  The HydraTeams proxy: the request handler of \<open>proxy.ts\<close> (the classifier, the
  routing of the two endpoints, the retry loop, the two provider paths and the error
  handling) and the session correlator of \<open>logger.ts\<close>, as functions of
  Isabelle/HOL, followed by the properties proved of them. An exception is a value
  \<open>Inl\<close> of a sum type that carries the message of the error; what the handler
  gets from outside (the parsed body, the upstream's answers, the state of the client's
  connection) is a parameter.
\<close>

section \<open>Strings of the runtime\<close>

text \<open>
  A string is a list of code units. The operations below are the ones of the JavaScript
  string type that the proxy calls: \<open>startsWith\<close>, \<open>endsWith\<close>, \<open>includes\<close>,
  \<open>toLowerCase\<close> and \<open>Array.prototype.join\<close>. Code units are those of type
  \<^typ>\<open>char\<close>, that is the range below 256.
\<close>

definition startsWith :: "string \<Rightarrow> string \<Rightarrow> bool" where
  "startsWith s p = (take (length p) s = p)"

definition endsWith :: "string \<Rightarrow> string \<Rightarrow> bool" where
  "endsWith s p = (length p \<le> length s \<and> drop (length s - length p) s = p)"

fun str_includes :: "string \<Rightarrow> string \<Rightarrow> bool" where
  "str_includes [] p = (p = [])"
| "str_includes (c # cs) p = (startsWith (c # cs) p \<or> str_includes cs p)"

definition toLowerCase_unit :: "char \<Rightarrow> char" where
  "toLowerCase_unit c =
     (let n = (of_char c :: nat)
      in if (65 \<le> n \<and> n \<le> 90) \<or> (192 \<le> n \<and> n \<le> 222 \<and> n \<noteq> 215)
         then char_of (n + 32) else c)"

definition toLowerCase :: "string \<Rightarrow> string" where
  "toLowerCase s = map toLowerCase_unit s"

fun join :: "string \<Rightarrow> string list \<Rightarrow> string" where
  "join sep [] = []"
| "join sep [x] = x"
| "join sep (x # y # ys) = x @ sep @ join sep (y # ys)"

text \<open>The decimal digits of a number, as a template literal writes it.\<close>

definition digit :: "nat \<Rightarrow> char" where
  "digit d = char_of (48 + d)"

function decimal :: "nat \<Rightarrow> string" where
  "decimal n = (if n < 10 then [digit n] else decimal (n div 10) @ [digit (n mod 10)])"
  by pat_completeness auto
termination
  by (relation "measure (\<lambda>n. n)") auto

declare decimal.simps [simp del]

section \<open>The classifier (proxy.ts, lines 13 to 29)\<close>

definition LEAD_MARKER :: string where
  "LEAD_MARKER = ''hydra:lead''"

definition TEAMMATE_MARKER :: string where
  "TEAMMATE_MARKER = ''the user interacts primarily with the team lead''"

text \<open>
  \<open>shouldPassthrough(model, passthroughModels, searchText?)\<close>. The optional third
  argument is \<open>None\<close> when it is \<open>undefined\<close>; \<open>!!searchText\<close> is false for
  \<open>undefined\<close> and for the empty string.
\<close>

definition shouldPassthrough :: "string \<Rightarrow> string list \<Rightarrow> string option \<Rightarrow> bool" where
  "shouldPassthrough model passthroughModels searchText =
     (if length passthroughModels = 0 then False
      else if ''*'' \<in> set passthroughModels then startsWith model ''claude-''
      else if ''lead'' \<in> set passthroughModels then
        (case searchText of
           None \<Rightarrow> False
         | Some t \<Rightarrow> t \<noteq> [] \<and> str_includes t LEAD_MARKER)
      else model \<in> set passthroughModels)"

section \<open>Requests and configuration\<close>

text \<open>
  The inbound payload, as the handler reads it after \<open>JSON.parse\<close>: the fields it
  touches, each optional field an \<open>option\<close>. A system prompt is a string or a sequence
  of text blocks; so is the content of a message.
\<close>

datatype block = Block (block_text: "string option")

datatype system_field = SystemAbsent | SystemString string | SystemBlocks "block list"

datatype content_field = ContentAbsent | ContentString string | ContentBlocks "block list"

record message =
  role :: string
  content :: content_field

record anthropic_request =
  model :: "string option"
  system :: system_field
  messages :: "message list option"
  tools :: "string list option"
  stream :: "bool option"

text \<open>
  Modelled from the spec: \<open>ProxyConfig\<close> is declared in \<open>translators/types\<close>, which is
  not among the sources; the fields are the ones \<open>proxy.ts\<close> reads, the provider one of
  \<open>openai\<close> and \<open>chatgpt\<close>.
\<close>

datatype provider = OpenAI | ChatGPT

record ProxyConfig =
  targetProvider :: provider
  targetModel :: string
  spoofModel :: string
  targetUrl :: "string option"
  passthroughModels :: "string list"
  leadBaseUrl :: "string option"

definition DEFAULT_OPENAI_URL :: string where
  "DEFAULT_OPENAI_URL = ''https://api.openai.com/v1/chat/completions''"

definition CHATGPT_API_URL :: string where
  "CHATGPT_API_URL = ''https://chatgpt.com/backend-api/codex/responses''"

definition DEFAULT_ANTHROPIC_BASE_URL :: string where
  "DEFAULT_ANTHROPIC_BASE_URL = ''https://api.anthropic.com''"

text \<open>\<open>a || b\<close> on an optional string: the empty string is falsy as well.\<close>

definition or_else :: "string option \<Rightarrow> string \<Rightarrow> string" where
  "or_else a b = (case a of None \<Rightarrow> b | Some s \<Rightarrow> if s = [] then b else s)"

text \<open>\<open>normalizeAnthropicMessagesUrl\<close> (lines 101 to 107).\<close>

fun strip_trailing_slashes_rev :: "string \<Rightarrow> string" where
  "strip_trailing_slashes_rev [] = []"
| "strip_trailing_slashes_rev (c # cs) =
     (if c = CHR ''/'' then strip_trailing_slashes_rev cs else c # cs)"

definition normalizeAnthropicMessagesUrl :: "string \<Rightarrow> bool \<Rightarrow> string" where
  "normalizeAnthropicMessagesUrl baseUrl countTokens =
     (let stripped = rev (strip_trailing_slashes_rev (rev baseUrl));
          messagesUrl = (if endsWith stripped ''/v1/messages'' then stripped
                         else stripped @ ''/v1/messages'')
      in if countTokens then messagesUrl @ ''/count_tokens'' else messagesUrl)"

text \<open>\<open>extractSystemText\<close> (lines 119 to 127).\<close>

definition blocks_text :: "block list \<Rightarrow> string" where
  "blocks_text bs = join '' '' (map (\<lambda>b. or_else (block_text b) []) bs)"

definition extractSystemText :: "system_field \<Rightarrow> string" where
  "extractSystemText sys =
     (case sys of
        SystemString s \<Rightarrow> s
      | SystemBlocks bs \<Rightarrow> blocks_text bs
      | SystemAbsent \<Rightarrow> [])"

section \<open>Routing of \<open>POST /v1/messages\<close> (lines 198 to 223)\<close>

text \<open>The text of one message, and of the first three (lines 203 to 207).\<close>

definition message_text :: "message \<Rightarrow> string" where
  "message_text m =
     (case content m of
        ContentString s \<Rightarrow> s
      | ContentBlocks bs \<Rightarrow> blocks_text bs
      | ContentAbsent \<Rightarrow> [])"

definition msgText :: "anthropic_request \<Rightarrow> string" where
  "msgText req =
     join '' '' (map message_text (take 3 (case messages req of None \<Rightarrow> [] | Some ms \<Rightarrow> ms)))"

definition fullText :: "anthropic_request \<Rightarrow> string" where
  "fullText req = extractSystemText (system req) @ '' '' @ msgText req"

definition hasMarker :: "anthropic_request \<Rightarrow> bool" where
  "hasMarker req = str_includes (fullText req) LEAD_MARKER"

definition isTeammate :: "anthropic_request \<Rightarrow> bool" where
  "isTeammate req = str_includes (toLowerCase (extractSystemText (system req))) TEAMMATE_MARKER"

definition isStreaming :: "anthropic_request \<Rightarrow> bool" where
  "isStreaming req = (stream req \<noteq> Some False)"

definition msgCount :: "anthropic_request \<Rightarrow> nat" where
  "msgCount req = (case messages req of None \<Rightarrow> 0 | Some ms \<Rightarrow> length ms)"

definition toolCount :: "anthropic_request \<Rightarrow> nat" where
  "toolCount req = (case tools req of None \<Rightarrow> 0 | Some ts \<Rightarrow> length ts)"

text \<open>
  The call \<open>shouldPassthrough(anthropicReq.model, ...)\<close> of line 217. The model field
  may be absent, and the function is then entered with \<open>undefined\<close>: line 22 throws a
  \<open>TypeError\<close> (\<open>Inl\<close> carries its message), and line 28 finds no matcher equal to
  \<open>undefined\<close>.
\<close>

definition undefined_startsWith :: string where
  "undefined_startsWith =
     ''Cannot read properties of undefined (reading '' @ [CHR 0x27] @ ''startsWith'' @ [CHR 0x27] @ '')''"

definition shouldPassthrough_call ::
  "string option \<Rightarrow> string list \<Rightarrow> string option \<Rightarrow> string + bool" where
  "shouldPassthrough_call requested matchers searchText =
     (case requested of
        Some m \<Rightarrow> Inr (shouldPassthrough m matchers searchText)
      | None \<Rightarrow>
          if length matchers = 0 then Inr False
          else if ''*'' \<in> set matchers then Inl undefined_startsWith
          else if ''lead'' \<in> set matchers then
            Inr (case searchText of
                   None \<Rightarrow> False
                 | Some t \<Rightarrow> t \<noteq> [] \<and> str_includes t LEAD_MARKER)
          else Inr False)"

text \<open>
  Line 217: \<open>!isTeammate && shouldPassthrough(...)\<close>; the classifier is not entered for
  a teammate.
\<close>

definition isPassthrough :: "ProxyConfig \<Rightarrow> anthropic_request \<Rightarrow> string + bool" where
  "isPassthrough config req =
     (if isTeammate req then Inr False
      else shouldPassthrough_call (model req) (passthroughModels config) (Some (fullText req)))"

definition isLeadPassthrough :: "ProxyConfig \<Rightarrow> anthropic_request \<Rightarrow> bool" where
  "isLeadPassthrough config req = (''lead'' \<in> set (passthroughModels config) \<and> hasMarker req)"

definition passthroughBaseUrl :: "ProxyConfig \<Rightarrow> anthropic_request \<Rightarrow> string" where
  "passthroughBaseUrl config req =
     (if isLeadPassthrough config req then or_else (leadBaseUrl config) DEFAULT_ANTHROPIC_BASE_URL
      else DEFAULT_ANTHROPIC_BASE_URL)"

datatype route = Passthrough | Translate

text \<open>The \<open>route\<close> field of the logged request (line 237).\<close>

definition logged_route :: "ProxyConfig \<Rightarrow> anthropic_request \<Rightarrow> string + route" where
  "logged_route config req =
     (case isPassthrough config req of
        Inl e \<Rightarrow> Inl e
      | Inr p \<Rightarrow> Inr (if p then Passthrough else Translate))"

section \<open>Upstream responses and what the client is sent\<close>

text \<open>
  The part of a Chat-Completions response that lines 354 to 368 read.
\<close>

record tool_call =
  tc_id :: string
  tc_name :: string
  tc_arguments :: "string option"

record openai_message =
  om_content :: "string option"
  om_tool_calls :: "tool_call list option"

record choice =
  ch_message :: "openai_message option"
  finish_reason :: "string option"

record openai_usage =
  prompt_tokens :: "nat option"
  completion_tokens :: "nat option"

record openai_response =
  choices :: "choice list option"
  usage :: "openai_usage option"

text \<open>
  A response of \<open>fetch\<close>, received whole: its status, its content type, whether it has
  a body, the body as \<open>text()\<close> gives it and as \<open>json()\<close> gives it (\<open>Inl\<close> is the
  message of the error that \<open>json()\<close> throws). A \<open>fetch\<close> that rejects is a
  \<open>NetworkError\<close> with the message of the error.
\<close>

record upstream_response =
  status :: nat
  content_type_header :: "string option"
  has_body :: bool
  body_text :: string
  body_json :: "string + openai_response"

datatype fetch_result = NetworkError string | Response upstream_response

definition ok :: "upstream_response \<Rightarrow> bool" where
  "ok r = (200 \<le> status r \<and> status r \<le> 299)"

text \<open>
  The message of lines 359 to 368: its model, content, stop reason and usage. The
  \<open>id\<close>, which is made from the clock, and the constant \<open>type\<close> and \<open>role\<close> are
  left out; the input of a tool-use block is the text of its arguments.
\<close>

datatype content_block = TextBlock string | ToolUseBlock string string string

record anthropic_message =
  msg_model :: string
  msg_content :: "content_block list"
  stop_reason :: string
  input_tokens :: nat
  output_tokens :: nat

datatype stream_translator = TranslateStream | TranslateResponsesStream

text \<open>
  The bodies the client is sent: the error envelope with its error type and message,
  the not-found and health bodies, a token count, a message, the event stream that a
  stream translator writes for the spoof model, the upstream body relayed by
  passthrough, and no body at all.
\<close>

datatype body =
    ErrorBody string string
  | NotFoundBody
  | HealthBody
  | TokenCount nat
  | MessageBody anthropic_message
  | EventStream stream_translator string
  | Relayed "string option"
  | NoBody

record http_response =
  res_status :: nat
  res_content_type :: string
  res_body :: body

text \<open>
  What a handler does besides answering: the request translators it runs, the upstream
  calls it makes and the delays it waits, in order. The request translators and the
  stream translators are the functions of \<open>translators/\<close>, which are not among the
  sources: the model records that they run, and nothing of what they compute. What
  the handler logs, and the headers it sends upstream, are left out.
\<close>

datatype effect = TranslateRequest | TranslateRequestToResponses | Fetch string | Wait nat

definition json_response :: "nat \<Rightarrow> body \<Rightarrow> http_response" where
  "json_response st b = \<lparr>res_status = st, res_content_type = ''application/json'', res_body = b\<rparr>"

definition sse_response :: "stream_translator \<Rightarrow> string \<Rightarrow> http_response" where
  "sse_response t spoof =
     \<lparr>res_status = 200, res_content_type = ''text/event-stream'', res_body = EventStream t spoof\<rparr>"

text \<open>
  \<open>res.writeHead(status, ...)\<close> followed by \<open>res.end(body)\<close>, or by the writes of a
  relayed body, where the status is the upstream's (lines 76, 296 and 348). The
  \<open>ServerResponse\<close> of the runtime throws a \<open>RangeError\<close> in \<open>writeHead\<close> for a
  status outside 100 to 999, and it sends no body with a status 204, 304 or 1xx: what
  is written or passed to \<open>end\<close> is dropped. The statuses 200, 404 and 500 that the
  handler writes as constants carry their body.
\<close>

definition has_no_body :: "nat \<Rightarrow> bool" where
  "has_no_body st = (st = 204 \<or> st = 304 \<or> (100 \<le> st \<and> st \<le> 199))"

definition respond :: "nat \<Rightarrow> string \<Rightarrow> body \<Rightarrow> string + http_response" where
  "respond st contentType b =
     (if st < 100 \<or> 999 < st then Inl (''Invalid status code: '' @ decimal st)
      else Inr \<lparr>res_status = st, res_content_type = contentType,
                res_body = (if has_no_body st then NoBody else b)\<rparr>)"

section \<open>The retry loop (lines 267 to 287 and 321 to 338)\<close>

definition MAX_RETRIES :: nat where
  "MAX_RETRIES = 5"

definition waitMs :: "nat \<Rightarrow> nat" where
  "waitMs attempt = min (1000 * 2 ^ attempt) 10000"

text \<open>
  \<open>fetch k\<close> is what the upstream answers to the call of attempt \<open>k\<close>. The loop
  returns the variable \<open>upstream\<close> as it leaves it, or the error \<open>fetch\<close> threw, with
  the calls and delays made.
\<close>

function retry_loop ::
  "(nat \<Rightarrow> fetch_result) \<Rightarrow> string \<Rightarrow> nat \<Rightarrow> upstream_response option
     \<Rightarrow> (string + upstream_response option) \<times> effect list" where
  "retry_loop fetch url attempt upstream =
     (if attempt \<le> MAX_RETRIES then
        (case fetch attempt of
           NetworkError e \<Rightarrow> (Inl e, [Fetch url])
         | Response r \<Rightarrow>
             if status r \<noteq> 429 then (Inr (Some r), [Fetch url])
             else if attempt < MAX_RETRIES then
               (case retry_loop fetch url (attempt + 1) (Some r) of
                  (res, tr) \<Rightarrow> (res, Fetch url # Wait (waitMs attempt) # tr))
             else
               (case retry_loop fetch url (attempt + 1) (Some r) of
                  (res, tr) \<Rightarrow> (res, Fetch url # tr)))
      else (Inr upstream, []))"
  by pat_completeness auto
termination
  by (relation "measure (\<lambda>(fetch, url, attempt, upstream). Suc MAX_RETRIES - attempt)") auto

declare retry_loop.simps [simp del]

section \<open>Passthrough (lines 49 to 99)\<close>

text \<open>
  One upstream call; the status is the upstream's, the content type the upstream's or
  \<open>text/event-stream\<close>, the body relayed as it is where the status carries one.
\<close>

definition handlePassthrough ::
  "fetch_result \<Rightarrow> string \<Rightarrow> (string + http_response) \<times> effect list" where
  "handlePassthrough answer upstreamUrl =
     (case answer of
        NetworkError e \<Rightarrow> (Inl e, [Fetch upstreamUrl])
      | Response r \<Rightarrow>
          (respond (status r) (or_else (content_type_header r) ''text/event-stream'')
             (Relayed (if has_body r then Some (body_text r) else None)),
           [Fetch upstreamUrl]))"

section \<open>The provider paths (lines 263 to 381)\<close>

text \<open>\<open>upstream?.status || 500\<close>.\<close>

definition status_or_500 :: "upstream_response \<Rightarrow> nat" where
  "status_or_500 r = (if status r = 0 then 500 else status r)"

text \<open>Lines 289 to 309, after the loop has left \<open>upstream\<close>.\<close>

definition chatgpt_answer ::
  "ProxyConfig \<Rightarrow> upstream_response option \<Rightarrow> string + http_response" where
  "chatgpt_answer config upstream =
     (case upstream of
        None \<Rightarrow> Inr (json_response 500 (ErrorBody ''api_error'' ''No response''))
      | Some r \<Rightarrow>
          if \<not> ok r then
            respond (status_or_500 r) ''application/json'' (ErrorBody ''api_error'' (body_text r))
          else if \<not> has_body r then
            Inr (json_response 500 (ErrorBody ''api_error'' ''No response body''))
          else Inr (sse_response TranslateResponsesStream (spoofModel config)))"

definition chatgpt_path ::
  "ProxyConfig \<Rightarrow> (nat \<Rightarrow> fetch_result) \<Rightarrow> (string + http_response) \<times> effect list" where
  "chatgpt_path config fetch =
     (case retry_loop fetch CHATGPT_API_URL 0 None of
        (Inl e, tr) \<Rightarrow> (Inl e, TranslateRequestToResponses # tr)
      | (Inr upstream, tr) \<Rightarrow>
          (chatgpt_answer config upstream, TranslateRequestToResponses # tr))"

text \<open>Line 347.\<close>

definition errorType :: "nat \<Rightarrow> string" where
  "errorType st =
     (if st = 429 then ''rate_limit_error''
      else if st = 401 then ''authentication_error''
      else if st \<ge> 500 then ''api_error''
      else ''invalid_request_error'')"

text \<open>
  Lines 358 to 368. \<open>json_error s\<close> is the message of the error that \<open>JSON.parse\<close>
  throws on \<open>s\<close>, and \<open>None\<close> when \<open>s\<close> parses; the input of a tool-use block is
  kept as the text that parsed.
\<close>

fun tool_use_blocks :: "(string \<Rightarrow> string option) \<Rightarrow> tool_call list \<Rightarrow> string + content_block list" where
  "tool_use_blocks json_error [] = Inr []"
| "tool_use_blocks json_error (tc # tcs) =
     (let args = or_else (tc_arguments tc) ''{}''
      in case json_error args of
           Some e \<Rightarrow> Inl e
         | None \<Rightarrow>
             (case tool_use_blocks json_error tcs of
                Inl e \<Rightarrow> Inl e
              | Inr bs \<Rightarrow> Inr (ToolUseBlock (tc_id tc) (tc_name tc) args # bs)))"

definition first_choice :: "openai_response \<Rightarrow> choice option" where
  "first_choice openaiRes =
     (case choices openaiRes of None \<Rightarrow> None | Some [] \<Rightarrow> None | Some (c # cs) \<Rightarrow> Some c)"

definition stopReason :: "choice option \<Rightarrow> string" where
  "stopReason ch =
     (let fr = (case ch of None \<Rightarrow> None | Some c \<Rightarrow> finish_reason c)
      in if fr = Some ''tool_calls'' then ''tool_use''
         else if fr = Some ''length'' then ''max_tokens''
         else ''end_turn'')"

definition count_or_0 :: "nat option \<Rightarrow> nat" where
  "count_or_0 n = (case n of None \<Rightarrow> 0 | Some k \<Rightarrow> k)"

definition nonStreaming ::
  "ProxyConfig \<Rightarrow> (string \<Rightarrow> string option) \<Rightarrow> upstream_response \<Rightarrow> string + http_response" where
  "nonStreaming config json_error r =
     (case body_json r of
        Inl e \<Rightarrow> Inl e
      | Inr openaiRes \<Rightarrow>
          (let ch = first_choice openaiRes;
               msg = (case ch of None \<Rightarrow> None | Some c \<Rightarrow> ch_message c);
               textBlocks = (case msg of
                               None \<Rightarrow> []
                             | Some m \<Rightarrow> (case om_content m of
                                            None \<Rightarrow> []
                                          | Some t \<Rightarrow> if t = [] then [] else [TextBlock t]));
               calls = (case msg of
                          None \<Rightarrow> []
                        | Some m \<Rightarrow> (case om_tool_calls m of None \<Rightarrow> [] | Some tcs \<Rightarrow> tcs))
           in case tool_use_blocks json_error calls of
                Inl e \<Rightarrow> Inl e
              | Inr toolBlocks \<Rightarrow>
                  Inr (json_response 200 (MessageBody
                    \<lparr>msg_model = spoofModel config,
                     msg_content = textBlocks @ toolBlocks,
                     stop_reason = stopReason ch,
                     input_tokens = count_or_0 (case usage openaiRes of
                                                  None \<Rightarrow> None | Some u \<Rightarrow> prompt_tokens u),
                     output_tokens = count_or_0 (case usage openaiRes of
                                                   None \<Rightarrow> None | Some u \<Rightarrow> completion_tokens u)\<rparr>))))"

text \<open>Lines 340 to 380, after the loop has left \<open>upstream\<close>.\<close>

definition openai_answer ::
  "ProxyConfig \<Rightarrow> (string \<Rightarrow> string option) \<Rightarrow> bool \<Rightarrow> upstream_response option
     \<Rightarrow> string + http_response" where
  "openai_answer config json_error streaming upstream =
     (case upstream of
        None \<Rightarrow> Inr (json_response 500 (ErrorBody (errorType 500) ''No response''))
      | Some r \<Rightarrow>
          if \<not> ok r then
            respond (status_or_500 r) ''application/json''
              (ErrorBody (errorType (status_or_500 r)) (body_text r))
          else if \<not> streaming then nonStreaming config json_error r
          else if \<not> has_body r then
            Inr (json_response 500 (ErrorBody ''api_error'' ''No response body''))
          else Inr (sse_response TranslateStream (spoofModel config)))"

definition openai_path ::
  "ProxyConfig \<Rightarrow> (string \<Rightarrow> string option) \<Rightarrow> bool \<Rightarrow> (nat \<Rightarrow> fetch_result)
     \<Rightarrow> (string + http_response) \<times> effect list" where
  "openai_path config json_error streaming fetch =
     (case retry_loop fetch (or_else (targetUrl config) DEFAULT_OPENAI_URL) 0 None of
        (Inl e, tr) \<Rightarrow> (Inl e, TranslateRequest # tr)
      | (Inr upstream, tr) \<Rightarrow>
          (openai_answer config json_error streaming upstream, TranslateRequest # tr))"

section \<open>The session correlator (logger.ts)\<close>

text \<open>
  An \<open>AgentSession\<close> with the fields the correlator reads and writes (the colour and
  the log stream, which only the console and the log files see, are left out), and the
  logger's state: the session table, a \<open>Map\<close> read in insertion order, and the
  teammate counter.
\<close>

datatype session_type = Lead | Teammate | Warmup

record AgentSession =
  key :: string
  label :: string
  stype :: session_type
  lastMsgCount :: nat
  requestCount :: nat

record ProxyLogger =
  sessions :: "(string \<times> AgentSession) list"
  teammateIndex :: nat

definition new_logger :: ProxyLogger where
  "new_logger = \<lparr>sessions = [], teammateIndex = 0\<rparr>"

text \<open>\<open>Map.prototype.set\<close>: an existing key keeps its place, a new one goes last.\<close>

fun set_session :: "string \<Rightarrow> AgentSession \<Rightarrow> (string \<times> AgentSession) list \<Rightarrow> (string \<times> AgentSession) list" where
  "set_session k v [] = [(k, v)]"
| "set_session k v ((k', v') # rest) =
     (if k' = k then (k, v) # rest else (k', v') # set_session k v rest)"

subsection \<open>\<open>extractName\<close> (lines 229 to 241)\<close>

text \<open>
  The character classes \<open>\w\<close>, \<open>[\w-]\<close> and \<open>\s\<close>, the line terminators that \<open>.\<close>
  does not match, and the canonical form under which the flag \<open>i\<close> compares letters.
\<close>

definition is_word :: "char \<Rightarrow> bool" where
  "is_word c =
     (let n = (of_char c :: nat)
      in (48 \<le> n \<and> n \<le> 57) \<or> (65 \<le> n \<and> n \<le> 90) \<or> n = 95 \<or> (97 \<le> n \<and> n \<le> 122))"

definition is_word_dash :: "char \<Rightarrow> bool" where
  "is_word_dash c = (is_word c \<or> c = CHR ''-'')"

definition is_space :: "char \<Rightarrow> bool" where
  "is_space c = (let n = (of_char c :: nat) in (9 \<le> n \<and> n \<le> 13) \<or> n = 32 \<or> n = 160)"

definition is_line_terminator :: "char \<Rightarrow> bool" where
  "is_line_terminator c = (let n = (of_char c :: nat) in n = 10 \<or> n = 13)"

definition canonicalize :: "char \<Rightarrow> char" where
  "canonicalize c =
     (let n = (of_char c :: nat) in if 97 \<le> n \<and> n \<le> 122 then char_of (n - 32) else c)"

definition startsWith_ci :: "string \<Rightarrow> string \<Rightarrow> bool" where
  "startsWith_ci s p = (map canonicalize (take (length p) s) = map canonicalize p)"

text \<open>The group \<open>(\w[\w-]*)\<close>, and an optional quote before it.\<close>

definition capture :: "string \<Rightarrow> string option" where
  "capture s =
     (case s of
        [] \<Rightarrow> None
      | c # cs \<Rightarrow> if is_word c then Some (c # takeWhile is_word_dash cs) else None)"

definition skip_one :: "(char \<Rightarrow> bool) \<Rightarrow> string \<Rightarrow> string" where
  "skip_one q s = (case s of [] \<Rightarrow> [] | c # cs \<Rightarrow> if q c then cs else s)"

definition is_dquote :: "char \<Rightarrow> bool" where
  "is_dquote c = (of_char c = (34 :: nat))"

definition is_quote :: "char \<Rightarrow> bool" where
  "is_quote c = (of_char c = (34 :: nat) \<or> of_char c = (39 :: nat))"

text \<open>
  \<open>String.prototype.match\<close> with a pattern that has no flag \<open>g\<close>: the match at the
  leftmost position where the pattern matches.
\<close>

fun regex_search :: "(string \<Rightarrow> string option) \<Rightarrow> string \<Rightarrow> string option" where
  "regex_search here [] = here []"
| "regex_search here (c # cs) =
     (case here (c # cs) of Some m \<Rightarrow> Some m | None \<Rightarrow> regex_search here cs)"

text \<open>
  The first pattern, \<open>/You are a teammate.*?named? "?(\w[\w-]*)"?/i\<close>: after the
  opening words the lazy \<open>.*?\<close> takes the fewest characters, none of them a line
  terminator, after which the rest matches.
\<close>

definition named_here :: "string \<Rightarrow> string option" where
  "named_here s =
     (if startsWith_ci s ''name'' then
        (let r = skip_one (\<lambda>c. canonicalize c = CHR ''D'') (drop 4 s)
         in case r of
              [] \<Rightarrow> None
            | c # cs \<Rightarrow> if c = CHR '' '' then capture (skip_one is_dquote cs) else None)
      else None)"

fun lazy_any :: "string \<Rightarrow> string option" where
  "lazy_any [] = named_here []"
| "lazy_any (c # cs) =
     (case named_here (c # cs) of
        Some m \<Rightarrow> Some m
      | None \<Rightarrow> if is_line_terminator c then None else lazy_any cs)"

definition teammate_named_here :: "string \<Rightarrow> string option" where
  "teammate_named_here s =
     (if startsWith_ci s ''you are a teammate'' then lazy_any (drop 18 s) else None)"

text \<open>The second pattern, \<open>/your (?:agent )?name is "?(\w[\w-]*)"?/i\<close>.\<close>

definition name_is_here :: "string \<Rightarrow> string option" where
  "name_is_here s =
     (if startsWith_ci s ''your '' then
        (let r = drop 5 s;
             r' = (if startsWith_ci r ''agent '' then drop 6 r else r)
         in if startsWith_ci r' ''name is '' then capture (skip_one is_dquote (drop 8 r'))
            else None)
      else None)"

text \<open>The third pattern, \<open>/Name:\s*["']?(\w[\w-]*)/\<close>.\<close>

definition name_colon_here :: "string \<Rightarrow> string option" where
  "name_colon_here s =
     (if startsWith s ''Name:'' then capture (skip_one is_quote (dropWhile is_space (drop 5 s)))
      else None)"

definition extractName :: "string \<Rightarrow> string option" where
  "extractName systemText =
     (case regex_search teammate_named_here systemText of
        Some m \<Rightarrow> Some m
      | None \<Rightarrow>
          (case regex_search name_is_here systemText of
             Some m \<Rightarrow> Some m
           | None \<Rightarrow> regex_search name_colon_here systemText))"

subsection \<open>\<open>getOrCreate\<close> (lines 190 to 227) and \<open>identify\<close> (lines 66 to 107)\<close>

definition getOrCreate ::
  "ProxyLogger \<Rightarrow> string \<Rightarrow> session_type \<Rightarrow> nat \<Rightarrow> string option \<Rightarrow> ProxyLogger \<times> AgentSession" where
  "getOrCreate lg k ty count lbl =
     (let session = (case map_of (sessions lg) k of
                       Some s \<Rightarrow> s
                     | None \<Rightarrow> \<lparr>key = k, label = or_else lbl k, stype = ty,
                                 lastMsgCount = count, requestCount = 0\<rparr>);
          session' = session\<lparr>lastMsgCount := count, requestCount := requestCount session + 1\<rparr>
      in (lg\<lparr>sessions := set_session k session' (sessions lg)\<rparr>, session'))"

text \<open>
  The loop of lines 86 to 94 over the table. \<open>best\<close> holds \<open>bestMatch\<close> (with the key
  it is stored under) and \<open>bestDiff\<close>; \<open>None\<close> is the initial \<open>null\<close> and
  \<open>Infinity\<close>.
\<close>

fun bestMatch_loop ::
  "nat \<Rightarrow> (string \<times> AgentSession) list \<Rightarrow> ((string \<times> AgentSession) \<times> int) option
     \<Rightarrow> ((string \<times> AgentSession) \<times> int) option" where
  "bestMatch_loop count [] best = best"
| "bestMatch_loop count ((k, session) # rest) best =
     (if stype session \<noteq> Teammate then bestMatch_loop count rest best
      else
        (let diff = int count - int (lastMsgCount session)
         in if diff \<ge> 0 \<and> diff \<le> 8 \<and> (case best of None \<Rightarrow> True | Some (b, bestDiff) \<Rightarrow> diff < bestDiff)
            then bestMatch_loop count rest (Some ((k, session), diff))
            else bestMatch_loop count rest best))"

definition identify ::
  "ProxyLogger \<Rightarrow> nat \<Rightarrow> nat \<Rightarrow> bool \<Rightarrow> string \<Rightarrow> ProxyLogger \<times> AgentSession" where
  "identify lg tools_n count teammate systemText =
     (if tools_n = 0 then getOrCreate lg ''WARM'' Warmup count None
      else if \<not> teammate then getOrCreate lg ''LEAD'' Lead count None
      else
        (case bestMatch_loop count (sessions lg) None of
           Some ((k, bestMatch), bestDiff) \<Rightarrow>
             (let session' = bestMatch\<lparr>lastMsgCount := count,
                                        requestCount := requestCount bestMatch + 1\<rparr>
              in (lg\<lparr>sessions := set_session k session' (sessions lg)\<rparr>, session'))
         | None \<Rightarrow>
             (let lg' = lg\<lparr>teammateIndex := teammateIndex lg + 1\<rparr>
              in getOrCreate lg' (''T'' @ decimal (teammateIndex lg')) Teammate count
                   (extractName systemText))))"

section \<open>The request handler (lines 140 to 403)\<close>

text \<open>
  What the runtime and the outside world give a request: \<open>JSON.parse\<close> on the inbound
  body (\<open>Inl\<close> is the message of the error it throws), \<open>JSON.stringify\<close> on a message
  list, \<open>JSON.parse\<close> on a string of tool arguments (the message of the error, if it
  throws), the upstream's answer to the call of each attempt, and whether the client's
  connection is already destroyed when an error is caught.
\<close>

record runtime =
  rt_parse :: "string \<Rightarrow> string + anthropic_request"
  rt_stringify :: "message list \<Rightarrow> string"
  rt_json_error :: "string \<Rightarrow> string option"
  rt_fetch :: "nat \<Rightarrow> fetch_result"
  rt_destroyed :: bool

text \<open>What a handler leaves behind: the response it wrote, if any, and its effects.\<close>

record outcome =
  response :: "http_response option"
  effects :: "effect list"

subsection \<open>\<open>POST /v1/messages/count_tokens\<close> (lines 156 to 183)\<close>

text \<open>
  Line 160 calls \<open>shouldPassthrough\<close> with the \<open>system\<close> field as it was parsed. When
  the field is an array, \<open>searchText.includes\<close> of line 25 is
  \<open>Array.prototype.includes\<close>, and no block of the array is the marker string.
\<close>

definition shouldPassthrough_raw :: "string \<Rightarrow> string list \<Rightarrow> system_field \<Rightarrow> bool" where
  "shouldPassthrough_raw m matchers sys =
     (case sys of
        SystemAbsent \<Rightarrow> shouldPassthrough m matchers None
      | SystemString s \<Rightarrow> shouldPassthrough m matchers (Some s)
      | SystemBlocks bs \<Rightarrow>
          if length matchers = 0 then False
          else if ''*'' \<in> set matchers then startsWith m ''claude-''
          else if ''lead'' \<in> set matchers then False
          else m \<in> set matchers)"

definition count_tokens_passthrough :: "ProxyConfig \<Rightarrow> anthropic_request \<Rightarrow> bool" where
  "count_tokens_passthrough config parsed =
     (case model parsed of
        None \<Rightarrow> False
      | Some m \<Rightarrow> m \<noteq> [] \<and> shouldPassthrough_raw m (passthroughModels config) (system parsed))"

definition count_tokens_base_url :: "ProxyConfig \<Rightarrow> anthropic_request \<Rightarrow> string" where
  "count_tokens_base_url config parsed =
     (let systemText = extractSystemText (system parsed);
          isLead = (''lead'' \<in> set (passthroughModels config) \<and> str_includes systemText LEAD_MARKER)
      in if isLead then or_else (leadBaseUrl config) DEFAULT_ANTHROPIC_BASE_URL
         else DEFAULT_ANTHROPIC_BASE_URL)"

text \<open>Lines 175 and 177: \<open>Math.ceil(length / 4)\<close>.\<close>

definition estimatedTokens :: "nat \<Rightarrow> nat" where
  "estimatedTokens len = nat \<lceil>real len / 4\<rceil>"

definition count_tokens :: "ProxyConfig \<Rightarrow> runtime \<Rightarrow> string \<Rightarrow> outcome" where
  "count_tokens config rt body =
     (case rt_parse rt body of
        Inl e \<Rightarrow> \<lparr>response = Some (json_response 200 (TokenCount 1000)), effects = []\<rparr>
      | Inr parsed \<Rightarrow>
          if count_tokens_passthrough config parsed then
            (case handlePassthrough (rt_fetch rt 0)
                    (normalizeAnthropicMessagesUrl (count_tokens_base_url config parsed) True) of
               (Inl e, tr) \<Rightarrow>
                 \<lparr>response = Some (json_response 200 (TokenCount 1000)), effects = tr\<rparr>
             | (Inr answer, tr) \<Rightarrow> \<lparr>response = Some answer, effects = tr\<rparr>)
          else
            \<lparr>response = Some (json_response 200 (TokenCount (estimatedTokens (length
                 (rt_stringify rt (case messages parsed of None \<Rightarrow> [] | Some ms \<Rightarrow> ms)))))),
             effects = []\<rparr>)"

subsection \<open>\<open>POST /v1/messages\<close> (lines 192 to 402)\<close>

text \<open>The \<open>catch\<close> block of lines 382 to 402, on the message of the error caught.\<close>

definition catch_block :: "bool \<Rightarrow> bool \<Rightarrow> bool \<Rightarrow> string \<Rightarrow> http_response option" where
  "catch_block writableEnded destroyed headersSent message =
     (if writableEnded \<or> destroyed then None
      else if \<not> headersSent then Some (json_response 500 (ErrorBody ''api_error'' message))
      else None)"

text \<open>
  Every error of the modelled paths is thrown before the handler has written anything,
  so the block is entered with nothing ended and no header sent.
\<close>

definition settle :: "runtime \<Rightarrow> (string + http_response) \<times> effect list \<Rightarrow> outcome" where
  "settle rt r =
     (case r of
        (Inl e, tr) \<Rightarrow> \<lparr>response = catch_block False (rt_destroyed rt) False e, effects = tr\<rparr>
      | (Inr answer, tr) \<Rightarrow> \<lparr>response = Some answer, effects = tr\<rparr>)"

definition handle_messages ::
  "ProxyConfig \<Rightarrow> runtime \<Rightarrow> ProxyLogger \<Rightarrow> string \<Rightarrow> ProxyLogger \<times> outcome" where
  "handle_messages config rt lg body =
     (case rt_parse rt body of
        Inl e \<Rightarrow> (lg, settle rt (Inl e, []))
      | Inr anthropicReq \<Rightarrow>
          (case isPassthrough config anthropicReq of
             Inl e \<Rightarrow> (lg, settle rt (Inl e, []))
           | Inr passthrough \<Rightarrow>
               (case identify lg (toolCount anthropicReq) (msgCount anthropicReq)
                       (isTeammate anthropicReq) (extractSystemText (system anthropicReq)) of
                  (lg', session) \<Rightarrow>
                    (lg', settle rt
                       (if passthrough then
                          handlePassthrough (rt_fetch rt 0)
                            (normalizeAnthropicMessagesUrl
                               (passthroughBaseUrl config anthropicReq) False)
                        else
                          (case targetProvider config of
                             ChatGPT \<Rightarrow> chatgpt_path config (rt_fetch rt)
                           | OpenAI \<Rightarrow>
                               openai_path config (rt_json_error rt)
                                 (isStreaming anthropicReq) (rt_fetch rt)))))))"

subsection \<open>The dispatch on method and path (lines 141 to 190)\<close>

datatype endpoint = HealthCheck | CountTokens | Messages | NotFound

definition pathname :: "string \<Rightarrow> string" where
  "pathname url = takeWhile (\<lambda>c. c \<noteq> CHR ''?'') url"

definition endpoint_of :: "string \<Rightarrow> string \<Rightarrow> endpoint" where
  "endpoint_of method url =
     (let p = pathname url
      in if method = ''GET'' \<and> (p = ''/'' \<or> p = ''/health'') then HealthCheck
         else if method = ''POST'' \<and> p = ''/v1/messages/count_tokens'' then CountTokens
         else if method \<noteq> ''POST'' \<or> p \<noteq> ''/v1/messages'' then NotFound
         else Messages)"

definition server ::
  "ProxyConfig \<Rightarrow> runtime \<Rightarrow> ProxyLogger \<Rightarrow> string \<Rightarrow> string \<Rightarrow> string \<Rightarrow> ProxyLogger \<times> outcome" where
  "server config rt lg method url body =
     (case endpoint_of method url of
        HealthCheck \<Rightarrow> (lg, \<lparr>response = Some (json_response 200 HealthBody), effects = []\<rparr>)
      | CountTokens \<Rightarrow> (lg, count_tokens config rt body)
      | NotFound \<Rightarrow> (lg, \<lparr>response = Some (json_response 404 NotFoundBody), effects = []\<rparr>)
      | Messages \<Rightarrow> handle_messages config rt lg body)"

section \<open>Vocabulary of the properties\<close>

text \<open>An answer that is a response of status 429.\<close>

definition rate_limited :: "fetch_result \<Rightarrow> bool" where
  "rate_limited answer = (case answer of NetworkError e \<Rightarrow> False | Response r \<Rightarrow> status r = 429)"

text \<open>
  The calls of attempts \<open>a\<close> to \<open>k\<close>, each but the last followed by the delay of its
  attempt.
\<close>

definition calls :: "string \<Rightarrow> nat \<Rightarrow> nat \<Rightarrow> effect list" where
  "calls url a k = concat (map (\<lambda>i. [Fetch url, Wait (waitMs i)]) [a..<k]) @ [Fetch url]"

text \<open>
  The finish reason and the tool calls of the first choice of a Chat-Completions
  response, where there are any.
\<close>

definition finish_reason_of :: "openai_response \<Rightarrow> string option" where
  "finish_reason_of openaiRes =
     (case first_choice openaiRes of None \<Rightarrow> None | Some c \<Rightarrow> finish_reason c)"

definition tool_calls_of :: "openai_response \<Rightarrow> tool_call list" where
  "tool_calls_of openaiRes =
     (case first_choice openaiRes of
        None \<Rightarrow> []
      | Some c \<Rightarrow>
          (case ch_message c of
             None \<Rightarrow> []
           | Some m \<Rightarrow> (case om_tool_calls m of None \<Rightarrow> [] | Some tcs \<Rightarrow> tcs)))"

text \<open>
  The gap between a request's message count and a session's last one; the sessions a
  teammate's request may attach to; and what holds of every table the logger builds:
  a key is stored once, with a session of that key, and is \<open>WARM\<close>, \<open>LEAD\<close> or
  \<open>T\<close> followed by a number from 1 to the teammate counter.
\<close>

definition gap :: "nat \<Rightarrow> AgentSession \<Rightarrow> int" where
  "gap count s = int count - int (lastMsgCount s)"

definition candidate :: "nat \<Rightarrow> AgentSession \<Rightarrow> bool" where
  "candidate count s = (stype s = Teammate \<and> 0 \<le> gap count s \<and> gap count s \<le> 8)"

definition teammate_keys :: "nat \<Rightarrow> string list" where
  "teammate_keys n = map (\<lambda>i. ''T'' @ decimal i) [1..<Suc n]"

definition logger_inv :: "ProxyLogger \<Rightarrow> bool" where
  "logger_inv lg =
     (distinct (map fst (sessions lg)) \<and>
      (\<forall>(k, s) \<in> set (sessions lg).
         key s = k \<and> (k = ''WARM'' \<or> k = ''LEAD'' \<or> k \<in> set (teammate_keys (teammateIndex lg)))))"

definition attach :: "nat \<Rightarrow> AgentSession \<Rightarrow> AgentSession" where
  "attach count s = s\<lparr>lastMsgCount := count, requestCount := requestCount s + 1\<rparr>"


section \<open>Example inputs\<close>

text \<open>
  A configuration with the \<open>lead\<close> matcher, a teammate's request that also carries the
  lead marker, and a runtime in which the body parses to a given request and the
  upstream answers every call with a given response.
\<close>

definition lead_config :: "provider \<Rightarrow> ProxyConfig" where
  "lead_config p =
     \<lparr>targetProvider = p, targetModel = ''gpt-4o'', spoofModel = ''claude-sonnet'',
      targetUrl = None, passthroughModels = [''lead''], leadBaseUrl = None\<rparr>"

definition teammate_request :: anthropic_request where
  "teammate_request =
     \<lparr>model = Some ''claude-opus'',
      system = SystemString ''hydra:lead The user interacts primarily with the team lead.'',
      messages = Some [\<lparr>role = ''user'', content = ContentString ''hello''\<rparr>],
      tools = Some [''Read''],
      stream = None\<rparr>"

definition plain_response :: "nat \<Rightarrow> string \<Rightarrow> upstream_response" where
  "plain_response st txt =
     \<lparr>status = st, content_type_header = None, has_body = True, body_text = txt,
      body_json = Inl ''Unexpected token''\<rparr>"

definition fixed_runtime :: "string + anthropic_request \<Rightarrow> upstream_response \<Rightarrow> runtime" where
  "fixed_runtime parsed r =
     \<lparr>rt_parse = (\<lambda>body. parsed), rt_stringify = (\<lambda>ms. ''[]''), rt_json_error = (\<lambda>s. None),
      rt_fetch = (\<lambda>attempt. Response r), rt_destroyed = False\<rparr>"

text \<open>
  A request that asks for no streaming, and a 200 response whose body parses to a given
  Chat-Completions response.
\<close>

definition buffered_request :: anthropic_request where
  "buffered_request = teammate_request\<lparr>stream := Some False\<rparr>"

definition completion :: "openai_response \<Rightarrow> upstream_response" where
  "completion openaiRes =
     \<lparr>status = 200, content_type_header = Some ''application/json'', has_body = True,
      body_text = ''{}'', body_json = Inr openaiRes\<rparr>"

definition tool_call_completion :: openai_response where
  "tool_call_completion =
     \<lparr>choices = Some [\<lparr>ch_message = Some \<lparr>om_content = None,
                          om_tool_calls = Some [\<lparr>tc_id = ''call_1'', tc_name = ''Read'',
                                                   tc_arguments = None\<rparr>]\<rparr>,
                        finish_reason = Some ''tool_calls''\<rparr>],
      usage = None\<rparr>"

text \<open>
  \<open>JSON.stringify\<close> on messages of a role and a string content in which no character
  needs an escape; a runtime that serializes with it; and a request of one message that
  it serializes to 400 characters.
\<close>

definition plain_stringify :: "message list \<Rightarrow> string" where
  \<open>plain_stringify ms =
     ''['' @ join '','' (map (\<lambda>m. ''{"role":"'' @ role m @ ''","content":"''
                               @ (case content m of ContentString s \<Rightarrow> s | _ \<Rightarrow> [])
                               @ ''"}'') ms) @ '']''\<close>

definition plain_runtime :: "string + anthropic_request \<Rightarrow> runtime" where
  "plain_runtime parsed =
     \<lparr>rt_parse = (\<lambda>body. parsed), rt_stringify = plain_stringify, rt_json_error = (\<lambda>s. None),
      rt_fetch = (\<lambda>attempt. NetworkError ''fetch failed''), rt_destroyed = False\<rparr>"


definition long_request :: anthropic_request where
  "long_request =
     \<lparr>model = Some ''claude-haiku'', system = SystemAbsent,
      messages = Some [\<lparr>role = ''user'', content = ContentString (replicate 370 CHR ''a'')\<rparr>],
      tools = None, stream = None\<rparr>"





section \<open>Properties of the classifier\<close>

lemma str_includes_iff: "str_includes s p \<longleftrightarrow> (\<exists>u v. s = u @ p @ v)"
proof (induction s)
  case Nil
  then show ?case by auto
next
  case (Cons c cs)
  have "startsWith (c # cs) p \<longleftrightarrow> (\<exists>v. c # cs = p @ v)"
    unfolding startsWith_def
    by (metis append_eq_conv_conj append_take_drop_id)
  moreover have "(\<exists>u v. c # cs = u @ p @ v) \<longleftrightarrow>
      (\<exists>v. c # cs = p @ v) \<or> (\<exists>u v. cs = u @ p @ v)"
  proof
    assume "\<exists>u v. c # cs = u @ p @ v"
    then obtain u v where uv: "c # cs = u @ p @ v" by blast
    show "(\<exists>v. c # cs = p @ v) \<or> (\<exists>u v. cs = u @ p @ v)"
    proof (cases u)
      case Nil
      with uv show ?thesis by auto
    next
      case (Cons a u')
      with uv have "cs = u' @ p @ v" by simp
      then show ?thesis by blast
    qed
  next
    assume "(\<exists>v. c # cs = p @ v) \<or> (\<exists>u v. cs = u @ p @ v)"
    then show "\<exists>u v. c # cs = u @ p @ v"
    proof
      assume "\<exists>v. c # cs = p @ v"
      then obtain v where "c # cs = [] @ p @ v" by auto
      then show ?thesis by blast
    next
      assume "\<exists>u v. cs = u @ p @ v"
      then obtain u v where "c # cs = (c # u) @ p @ v" by auto
      then show ?thesis by blast
    qed
  qed
  ultimately show ?case using Cons.IH by simp
qed

text \<open>
  C4. The classifier, for every model name, matcher list and search text: no matcher
  gives translate; with a \<open>*\<close> matcher the decision is passthrough exactly when the
  model name starts with \<open>claude-\<close>; with a \<open>lead\<close> matcher and no \<open>*\<close> it is
  passthrough exactly when the search text contains the lead marker; otherwise it is
  passthrough exactly when the model name is in the matcher list.
\<close>

theorem shouldPassthrough_cases:
  "(pm = [] \<longrightarrow> \<not> shouldPassthrough m pm st) \<and>
   (''*'' \<in> set pm \<longrightarrow>
      (shouldPassthrough m pm st
         \<longleftrightarrow> (\<exists>rest. m = ''claude-'' @ rest))) \<and>
   (''lead'' \<in> set pm \<and> ''*'' \<notin> set pm \<longrightarrow>
      (shouldPassthrough m pm st
         \<longleftrightarrow> (\<exists>t u v. st = Some t \<and> t = u @ ''hydra:lead'' @ v))) \<and>
   (pm \<noteq> [] \<and> ''*'' \<notin> set pm \<and>
    ''lead'' \<notin> set pm \<longrightarrow>
      (shouldPassthrough m pm st
         \<longleftrightarrow> m \<in> set pm))"
proof -
  have star: "startsWith m ''claude-'' \<longleftrightarrow> (\<exists>rest. m = ''claude-'' @ rest)"
    unfolding startsWith_def by (metis append_eq_conv_conj append_take_drop_id)
  have lead: "(case st of None \<Rightarrow> False | Some t \<Rightarrow> t \<noteq> [] \<and> str_includes t LEAD_MARKER)
      \<longleftrightarrow> (\<exists>t u v. st = Some t \<and> t = u @ ''hydra:lead'' @ v)"
    by (cases st) (auto simp: str_includes_iff LEAD_MARKER_def)
  show ?thesis
    unfolding shouldPassthrough_def using star lead by auto
qed

theorem shouldPassthrough_cases_witness:
  "\<not> shouldPassthrough ''claude-opus'' [] (Some ''hydra:lead'')
   \<and> shouldPassthrough ''claude-opus'' [''lead'', ''*''] None
   \<and> \<not> shouldPassthrough ''gpt-4'' [''lead'', ''*''] (Some ''hydra:lead'')
   \<and> shouldPassthrough ''gpt-4'' [''lead''] (Some ''x hydra:lead y'')
   \<and> \<not> shouldPassthrough ''lead'' [''lead''] (Some ''x hydra:lea y'')
   \<and> shouldPassthrough ''gpt-4'' [''gpt-5'', ''gpt-4''] None
   \<and> \<not> shouldPassthrough ''gpt-4'' [''gpt-5''] (Some ''hydra:lead'')"
  using shouldPassthrough_cases[of "[]" "''claude-opus''" "Some ''hydra:lead''"]
    shouldPassthrough_cases[of "[''lead'', ''*'']" "''claude-opus''" None]
    shouldPassthrough_cases[of "[''lead'', ''*'']" "''gpt-4''" "Some ''hydra:lead''"]
    shouldPassthrough_cases[of "[''lead'']" "''gpt-4''" "Some ''x hydra:lead y''"]
    shouldPassthrough_cases[of "[''lead'']" "''lead''" "Some ''x hydra:lea y''"]
    shouldPassthrough_cases[of "[''gpt-5'', ''gpt-4'']" "''gpt-4''" None]
    shouldPassthrough_cases[of "[''gpt-5'']" "''gpt-4''" "Some ''hydra:lead''"]
  by (simp add: shouldPassthrough_def startsWith_def LEAD_MARKER_def)

section \<open>Routing of a teammate's request\<close>

text \<open>
  C1. For every \<open>POST /v1/messages\<close> request whose system text matches the teammate
  phrase, the routing decision is translate, never passthrough, whatever the matchers
  and whether or not the search text contains the lead marker: the decision of line 217
  is false, the logged route is \<open>translate\<close>, and the handler starts with one of the
  two request translators.
\<close>

theorem teammate_always_translates:
  assumes "endpoint_of method url = Messages"
    and "rt_parse rt body = Inr req"
    and "isTeammate req"
  shows "isPassthrough config req = Inr False
     \<and> logged_route config req = Inr Translate
     \<and> (\<exists>tr. effects (snd (server config rt lg method url body)) = TranslateRequest # tr
          \<or> effects (snd (server config rt lg method url body)) = TranslateRequestToResponses # tr)"
proof -
  have p: "isPassthrough config req = Inr False"
    using assms(3) by (simp add: isPassthrough_def)
  obtain lg' session where idf: "identify lg (toolCount req) (msgCount req)
       (isTeammate req) (extractSystemText (system req)) = (lg', session)"
    by (cases "identify lg (toolCount req) (msgCount req)
       (isTeammate req) (extractSystemText (system req))")
  show ?thesis
  proof (cases "targetProvider config")
    case OpenAI
    then show ?thesis
      using assms(1,2) p idf
      by (auto simp: server_def handle_messages_def settle_def openai_path_def logged_route_def
          split: prod.splits sum.splits)
  next
    case ChatGPT
    then show ?thesis
      using assms(1,2) p idf
      by (auto simp: server_def handle_messages_def settle_def chatgpt_path_def logged_route_def
          split: prod.splits sum.splits)
  qed
qed

theorem teammate_always_translates_witness:
  "endpoint_of ''POST'' ''/v1/messages?beta=true'' = Messages
   \<and> isTeammate teammate_request
   \<and> hasMarker teammate_request
   \<and> ''lead'' \<in> set (passthroughModels (lead_config OpenAI))
   \<and> shouldPassthrough ''claude-opus'' (passthroughModels (lead_config OpenAI))
        (Some (fullText teammate_request))
   \<and> isPassthrough (lead_config OpenAI) teammate_request = Inr False
   \<and> logged_route (lead_config OpenAI) teammate_request = Inr Translate
   \<and> (\<exists>tr. effects (snd (server (lead_config OpenAI)
               (fixed_runtime (Inr teammate_request) (plain_response 200 ''{}''))
               new_logger ''POST'' ''/v1/messages?beta=true'' ''{}'')) = TranslateRequest # tr
          \<or> effects (snd (server (lead_config OpenAI)
               (fixed_runtime (Inr teammate_request) (plain_response 200 ''{}''))
               new_logger ''POST'' ''/v1/messages?beta=true'' ''{}'')) = TranslateRequestToResponses # tr)"
proof -
  have e: "endpoint_of ''POST'' ''/v1/messages?beta=true'' = Messages"
    by (simp add: endpoint_of_def pathname_def)
  have p: "rt_parse (fixed_runtime (Inr teammate_request) (plain_response 200 ''{}'')) ''{}''
      = Inr teammate_request"
    by (simp add: fixed_runtime_def)
  have t: "isTeammate teammate_request"
    by code_simp
  have m: "hasMarker teammate_request"
    by code_simp
  have l: "''lead'' \<in> set (passthroughModels (lead_config OpenAI))"
    by (simp add: lead_config_def)
  have s: "shouldPassthrough ''claude-opus'' (passthroughModels (lead_config OpenAI))
        (Some (fullText teammate_request))"
    by code_simp
  show ?thesis
    using teammate_always_translates[OF e p t, of "lead_config OpenAI" new_logger] e t m l s
    by simp
qed



section \<open>The retry policy\<close>

lemma calls_step: "a < k \<Longrightarrow> calls url a k = Fetch url # Wait (waitMs a) # calls url (Suc a) k"
  by (simp add: calls_def upt_conv_Cons)

lemma calls_same: "calls url k k = [Fetch url]"
  by (simp add: calls_def)

lemma retry_loop_limited_step:
  assumes "attempt < MAX_RETRIES" and "fetch attempt = Response r" and "status r = 429"
  shows "retry_loop fetch url attempt up =
    (fst (retry_loop fetch url (Suc attempt) (Some r)),
     Fetch url # Wait (waitMs attempt) # snd (retry_loop fetch url (Suc attempt) (Some r)))"
  using assms by (subst retry_loop.simps) (simp split: prod.splits)

lemma retry_loop_stops:
  assumes "k \<le> MAX_RETRIES" and "fetch k = Response r" and "status r \<noteq> 429"
    and "a \<le> k" and "\<forall>i. a \<le> i \<and> i < k \<longrightarrow> rate_limited (fetch i)"
  shows "retry_loop fetch url a up = (Inr (Some r), calls url a k)"
  using assms(4,5)
proof (induction "k - a" arbitrary: a up)
  case 0
  then have "a = k" by simp
  then show ?case
    using assms(1,2,3) by (subst retry_loop.simps) (simp add: calls_same)
next
  case (Suc n)
  then have lt: "a < k" by simp
  then have "rate_limited (fetch a)" using Suc.prems by simp
  then obtain ra where ra: "fetch a = Response ra" "status ra = 429"
    by (auto simp: rate_limited_def split: fetch_result.splits)
  have am: "a < MAX_RETRIES" using lt assms(1) by simp
  have ih: "retry_loop fetch url (Suc a) (Some ra) = (Inr (Some r), calls url (Suc a) k)"
    using Suc.hyps(1)[of "Suc a" "Some ra"] Suc.hyps(2) Suc.prems lt by simp
  show ?case
    using retry_loop_limited_step[where fetch=fetch and attempt=a and r=ra and url=url and up=up, OF am ra] ih calls_step[OF lt, of url] by simp
qed

lemma retry_loop_throws:
  assumes "k \<le> MAX_RETRIES" and "fetch k = NetworkError e"
    and "a \<le> k" and "\<forall>i. a \<le> i \<and> i < k \<longrightarrow> rate_limited (fetch i)"
  shows "retry_loop fetch url a up = (Inl e, calls url a k)"
  using assms(3,4)
proof (induction "k - a" arbitrary: a up)
  case 0
  then have "a = k" by simp
  then show ?case
    using assms(1,2) by (subst retry_loop.simps) (simp add: calls_same)
next
  case (Suc n)
  then have lt: "a < k" by simp
  then have "rate_limited (fetch a)" using Suc.prems by simp
  then obtain ra where ra: "fetch a = Response ra" "status ra = 429"
    by (auto simp: rate_limited_def split: fetch_result.splits)
  have am: "a < MAX_RETRIES" using lt assms(1) by simp
  have ih: "retry_loop fetch url (Suc a) (Some ra) = (Inl e, calls url (Suc a) k)"
    using Suc.hyps(1)[of "Suc a" "Some ra"] Suc.hyps(2) Suc.prems lt by simp
  show ?case
    using retry_loop_limited_step[where fetch=fetch and attempt=a and r=ra and url=url and up=up, OF am ra] ih calls_step[OF lt, of url] by simp
qed

lemma retry_loop_last:
  assumes "fetch MAX_RETRIES = Response r" and "status r = 429"
  shows "retry_loop fetch url MAX_RETRIES up = (Inr (Some r), [Fetch url])"
proof -
  have "retry_loop fetch url (MAX_RETRIES + 1) (Some r) = (Inr (Some r), [])"
    by (subst retry_loop.simps) simp
  then show ?thesis
    using assms by (subst retry_loop.simps) simp
qed

lemma retry_loop_exhausts:
  assumes "fetch MAX_RETRIES = Response r"
    and "a \<le> MAX_RETRIES" and "\<forall>i. a \<le> i \<and> i \<le> MAX_RETRIES \<longrightarrow> rate_limited (fetch i)"
  shows "retry_loop fetch url a up = (Inr (Some r), calls url a MAX_RETRIES)"
  using assms(2,3)
proof (induction "MAX_RETRIES - a" arbitrary: a up)
  case 0
  then have a: "a = MAX_RETRIES" by simp
  then have "rate_limited (fetch MAX_RETRIES)" using "0.prems" by simp
  then have "status r = 429" using assms(1) by (simp add: rate_limited_def)
  then show ?case
    using retry_loop_last[where fetch=fetch and r=r and url=url and up=up, OF assms(1)] a by (simp add: calls_same)
next
  case (Suc n)
  then have lt: "a < MAX_RETRIES" by simp
  have "rate_limited (fetch a)" using Suc.prems by simp
  then obtain ra where ra: "fetch a = Response ra" "status ra = 429"
    by (auto simp: rate_limited_def split: fetch_result.splits)
  have ih: "retry_loop fetch url (Suc a) (Some ra) = (Inr (Some r), calls url (Suc a) MAX_RETRIES)"
    using Suc.hyps(1)[of "Suc a" "Some ra"] Suc.hyps(2) Suc.prems lt by simp
  show ?case
    using retry_loop_limited_step[where fetch=fetch and attempt=a and r=ra and url=url and up=up, OF lt ra] ih calls_step[OF lt, of url] by simp
qed

lemma calls_all: "calls url 0 MAX_RETRIES =
  [Fetch url, Wait 1000, Fetch url, Wait 2000, Fetch url, Wait 4000, Fetch url, Wait 8000,
   Fetch url, Wait 10000, Fetch url]"
  by (simp add: calls_def MAX_RETRIES_def waitMs_def upt_conv_Cons)

text \<open>
  C2. A translated request's upstream call is retried only on status 429, the delay
  after attempt \<open>i\<close> being \<open>min (1000 * 2 ^ i) 10000\<close> milliseconds: the first answer
  that is not a 429, at attempt \<open>k\<close>, ends the loop with that response after \<open>k + 1\<close>
  calls; an upstream that always answers 429 is called exactly 6 times, with delays
  1000, 2000, 4000, 8000 and 10000, and the last 429 is the result. Both provider paths
  make their upstream calls through this loop, after translating the request.
\<close>

theorem retry_only_on_429:
  "(k \<le> 5 \<and> (\<forall>i<k. rate_limited (fetch i)) \<and> fetch k = Response r \<and> status r \<noteq> 429 \<longrightarrow>
      retry_loop fetch url 0 None =
        (Inr (Some r),
         concat (map (\<lambda>i. [Fetch url, Wait (min (1000 * 2 ^ i) 10000)]) [0..<k]) @ [Fetch url]))
   \<and> ((\<forall>i\<le>5. rate_limited (fetch i)) \<and> fetch 5 = Response r \<longrightarrow>
      retry_loop fetch url 0 None =
        (Inr (Some r),
         [Fetch url, Wait 1000, Fetch url, Wait 2000, Fetch url, Wait 4000, Fetch url,
          Wait 8000, Fetch url, Wait 10000, Fetch url]))
   \<and> snd (chatgpt_path config fetch) =
        TranslateRequestToResponses # snd (retry_loop fetch CHATGPT_API_URL 0 None)
   \<and> snd (openai_path config json_error streaming fetch) =
        TranslateRequest # snd (retry_loop fetch (or_else (targetUrl config) DEFAULT_OPENAI_URL) 0 None)"
proof -
  have stop: "retry_loop fetch url 0 None =
        (Inr (Some r),
         concat (map (\<lambda>i. [Fetch url, Wait (min (1000 * 2 ^ i) 10000)]) [0..<k]) @ [Fetch url])"
    if "k \<le> 5" "\<forall>i<k. rate_limited (fetch i)" "fetch k = Response r" "status r \<noteq> 429"
  proof -
    have "retry_loop fetch url 0 None = (Inr (Some r), calls url 0 k)"
      using that by (intro retry_loop_stops) (simp_all add: MAX_RETRIES_def)
    then show ?thesis by (simp add: calls_def waitMs_def)
  qed
  have all: "retry_loop fetch url 0 None =
        (Inr (Some r),
         [Fetch url, Wait 1000, Fetch url, Wait 2000, Fetch url, Wait 4000, Fetch url,
          Wait 8000, Fetch url, Wait 10000, Fetch url])"
    if "\<forall>i\<le>5. rate_limited (fetch i)" "fetch 5 = Response r"
  proof -
    have "retry_loop fetch url 0 None = (Inr (Some r), calls url 0 MAX_RETRIES)"
      using that by (intro retry_loop_exhausts) (simp_all add: MAX_RETRIES_def)
    then show ?thesis by (simp add: calls_all)
  qed
  have gpt: "snd (chatgpt_path config fetch) =
        TranslateRequestToResponses # snd (retry_loop fetch CHATGPT_API_URL 0 None)"
    by (simp add: chatgpt_path_def split: prod.splits sum.splits)
  have oai: "snd (openai_path config json_error streaming fetch) =
        TranslateRequest # snd (retry_loop fetch (or_else (targetUrl config) DEFAULT_OPENAI_URL) 0 None)"
    by (simp add: openai_path_def split: prod.splits sum.splits)
  show ?thesis using stop all gpt oai by blast
qed


theorem retry_only_on_429_witness:
  "retry_loop (\<lambda>attempt. Response (plain_response (if attempt < 2 then 429 else 503) ''busy''))
       ''https://upstream'' 0 None =
     (Inr (Some (plain_response 503 ''busy'')),
      [Fetch ''https://upstream'', Wait 1000, Fetch ''https://upstream'', Wait 2000,
       Fetch ''https://upstream''])
   \<and> retry_loop (\<lambda>attempt. Response (plain_response 429 ''slow down'')) ''https://upstream'' 0 None =
     (Inr (Some (plain_response 429 ''slow down'')),
      [Fetch ''https://upstream'', Wait 1000, Fetch ''https://upstream'', Wait 2000,
       Fetch ''https://upstream'', Wait 4000, Fetch ''https://upstream'', Wait 8000,
       Fetch ''https://upstream'', Wait 10000, Fetch ''https://upstream''])"
proof -
  have a: "2 \<le> (5::nat) \<and> (\<forall>i<2. rate_limited (Response (plain_response (if i < 2 then 429 else 503) ''busy'')))
      \<and> Response (plain_response (if (2::nat) < 2 then 429 else 503) ''busy'') = Response (plain_response 503 ''busy'')
      \<and> status (plain_response 503 ''busy'') \<noteq> 429"
    by (simp add: rate_limited_def plain_response_def)
  have b: "(\<forall>i\<le>5. rate_limited (Response (plain_response 429 ''slow down'')))
      \<and> Response (plain_response 429 ''slow down'') = Response (plain_response 429 ''slow down'')"
    by (simp add: rate_limited_def plain_response_def)
  have 1: "retry_loop (\<lambda>attempt. Response (plain_response (if attempt < 2 then 429 else 503) ''busy''))
       ''https://upstream'' 0 None =
     (Inr (Some (plain_response 503 ''busy'')),
      concat (map (\<lambda>i. [Fetch ''https://upstream'', Wait (min (1000 * 2 ^ i) 10000)]) [0..<2])
        @ [Fetch ''https://upstream''])"
    using retry_only_on_429[where k = 2 and r = "plain_response 503 ''busy''"
        and url = "''https://upstream''"
        and fetch = "\<lambda>attempt. Response (plain_response (if attempt < 2 then 429 else 503) ''busy'')",
        THEN conjunct1, THEN mp, OF a] .
  have 2: "retry_loop (\<lambda>attempt. Response (plain_response 429 ''slow down'')) ''https://upstream'' 0 None =
     (Inr (Some (plain_response 429 ''slow down'')),
      [Fetch ''https://upstream'', Wait 1000, Fetch ''https://upstream'', Wait 2000,
       Fetch ''https://upstream'', Wait 4000, Fetch ''https://upstream'', Wait 8000,
       Fetch ''https://upstream'', Wait 10000, Fetch ''https://upstream''])"
    using retry_only_on_429[where r = "plain_response 429 ''slow down''"
        and url = "''https://upstream''"
        and fetch = "\<lambda>attempt. Response (plain_response 429 ''slow down'')",
        THEN conjunct2, THEN conjunct1, THEN mp, OF b] .
  have 3: "concat (map (\<lambda>i. [Fetch ''https://upstream'', Wait (min (1000 * 2 ^ i) 10000)]) [0..<2])
        @ [Fetch ''https://upstream''] =
     [Fetch ''https://upstream'', Wait 1000, Fetch ''https://upstream'', Wait 2000,
       Fetch ''https://upstream'']"
    by (simp add: upt_conv_Cons)
  show ?thesis
    using 1 2 unfolding 3 by (rule conjI)
qed

section \<open>Lemmas on the handler\<close>

lemma handle_messages_translated:
  assumes "rt_parse rt body = Inr req" and "isPassthrough config req = Inr False"
  shows "snd (handle_messages config rt lg body) =
     settle rt (case targetProvider config of
                  ChatGPT \<Rightarrow> chatgpt_path config (rt_fetch rt)
                | OpenAI \<Rightarrow> openai_path config (rt_json_error rt) (isStreaming req) (rt_fetch rt))"
  using assms by (simp add: handle_messages_def split: prod.splits)

lemma settle_answer: "settle rt (Inr answer, tr) = \<lparr>response = Some answer, effects = tr\<rparr>"
  by (simp add: settle_def)

lemma settle_error:
  "settle rt (Inl e, tr) = \<lparr>response = catch_block False (rt_destroyed rt) False e, effects = tr\<rparr>"
  by (simp add: settle_def)

lemma retry_loop_first:
  assumes "fetch 0 = Response r" and "status r \<noteq> 429"
  shows "retry_loop fetch url 0 None = (Inr (Some r), [Fetch url])"
  using assms by (subst retry_loop.simps) (simp add: MAX_RETRIES_def)

lemma teammate_request_translated: "isPassthrough config teammate_request = Inr False"
proof -
  have "isTeammate teammate_request" by code_simp
  then show ?thesis by (simp add: isPassthrough_def)
qed

lemma buffered_request_translated: "isPassthrough config buffered_request = Inr False"
proof -
  have "isTeammate buffered_request" by code_simp
  then show ?thesis by (simp add: isPassthrough_def)
qed

section \<open>Errors of the Chat-Completions path\<close>


text \<open>
  C5 as stated fails for a status 304: the client is sent the status and no body, for
  the response object sends none with a 304.
\<close>

theorem openai_error_envelope_counterexample:
  "response (snd (handle_messages (lead_config OpenAI)
      (fixed_runtime (Inr teammate_request) (plain_response 304 [])) new_logger ''{}'')) =
     Some \<lparr>res_status = 304, res_content_type = ''application/json'', res_body = NoBody\<rparr>"
proof -
  let ?rt = "fixed_runtime (Inr teammate_request) (plain_response 304 [])"
  have "retry_loop (rt_fetch ?rt) (or_else (targetUrl (lead_config OpenAI)) DEFAULT_OPENAI_URL) 0 None
      = (Inr (Some (plain_response 304 [])),
         [Fetch (or_else (targetUrl (lead_config OpenAI)) DEFAULT_OPENAI_URL)])"
    by (rule retry_loop_first) (simp_all add: fixed_runtime_def plain_response_def)
  then have "openai_path (lead_config OpenAI) (rt_json_error ?rt) (isStreaming teammate_request)
        (rt_fetch ?rt) =
      (Inr \<lparr>res_status = 304, res_content_type = ''application/json'', res_body = NoBody\<rparr>,
       [TranslateRequest, Fetch (or_else (targetUrl (lead_config OpenAI)) DEFAULT_OPENAI_URL)])"
    by (simp add: openai_path_def openai_answer_def status_or_500_def respond_def has_no_body_def
        ok_def plain_response_def)
  then show ?thesis
    using handle_messages_translated[of ?rt "''{}''" teammate_request "lead_config OpenAI" new_logger]
      teammate_request_translated[of "lead_config OpenAI"]
    by (simp add: settle_answer fixed_runtime_def lead_config_def)
qed

text \<open>
  C5, as amended. On the Chat-Completions path, when the response the retry loop ends
  with is not a 2xx and has an HTTP status, from 100 to 999, the client is sent the
  upstream's status, and with it the error envelope, of type \<open>rate_limit_error\<close> for
  429, \<open>authentication_error\<close> for 401, \<open>api_error\<close> from 500 on and
  \<open>invalid_request_error\<close> otherwise, the message being the upstream's body; except
  for a status 304 or 1xx, which is sent with no body.
\<close>

theorem openai_error_envelope:
  assumes "rt_parse rt body = Inr req"
    and "isPassthrough config req = Inr False"
    and "targetProvider config = OpenAI"
    and "retry_loop (rt_fetch rt) (or_else (targetUrl config) DEFAULT_OPENAI_URL) 0 None
           = (Inr (Some r), tr)"
    and "\<not> ok r" and "100 \<le> status r" and "status r \<le> 999"
  shows "response (snd (handle_messages config rt lg body)) =
     Some \<lparr>res_status = status r, res_content_type = ''application/json'',
           res_body =
             (if status r = 304 \<or> status r \<le> 199 then NoBody
              else ErrorBody
                (if status r = 429 then ''rate_limit_error''
                 else if status r = 401 then ''authentication_error''
                 else if 500 \<le> status r then ''api_error''
                 else ''invalid_request_error'')
                (body_text r))\<rparr>"
proof -
  have "has_no_body (status r) \<longleftrightarrow> status r = 304 \<or> status r \<le> 199"
    using assms(5,6) by (auto simp: has_no_body_def ok_def)
  then have "openai_path config (rt_json_error rt) (isStreaming req) (rt_fetch rt) =
      (Inr \<lparr>res_status = status r, res_content_type = ''application/json'',
            res_body = (if status r = 304 \<or> status r \<le> 199 then NoBody
                        else ErrorBody (errorType (status r)) (body_text r))\<rparr>,
       TranslateRequest # tr)"
    using assms(4,5,6,7)
    by (simp add: openai_path_def openai_answer_def status_or_500_def respond_def)
  then show ?thesis
    using handle_messages_translated[OF assms(1,2), of lg] assms(3)
    by (simp add: settle_answer errorType_def)
qed

theorem openai_error_envelope_witness:
  "response (snd (handle_messages (lead_config OpenAI)
      (fixed_runtime (Inr teammate_request) (plain_response 401 ''bad key'')) new_logger ''{}'')) =
     Some \<lparr>res_status = 401, res_content_type = ''application/json'',
           res_body = ErrorBody ''authentication_error'' ''bad key''\<rparr>
   \<and> response (snd (handle_messages (lead_config OpenAI)
      (fixed_runtime (Inr teammate_request) (plain_response 304 [])) new_logger ''{}'')) =
     Some \<lparr>res_status = 304, res_content_type = ''application/json'', res_body = NoBody\<rparr>"
proof -
  let ?rt = "fixed_runtime (Inr teammate_request) (plain_response 401 ''bad key'')"
  let ?rt' = "fixed_runtime (Inr teammate_request) (plain_response 304 [])"
  have p: "rt_parse ?rt ''{}'' = Inr teammate_request"
    by (simp add: fixed_runtime_def)
  have p': "rt_parse ?rt' ''{}'' = Inr teammate_request"
    by (simp add: fixed_runtime_def)
  have o: "targetProvider (lead_config OpenAI) = OpenAI"
    by (simp add: lead_config_def)
  have l: "retry_loop (rt_fetch ?rt) (or_else (targetUrl (lead_config OpenAI)) DEFAULT_OPENAI_URL) 0 None
      = (Inr (Some (plain_response 401 ''bad key'')),
         [Fetch (or_else (targetUrl (lead_config OpenAI)) DEFAULT_OPENAI_URL)])"
    by (rule retry_loop_first) (simp_all add: fixed_runtime_def plain_response_def)
  have l': "retry_loop (rt_fetch ?rt') (or_else (targetUrl (lead_config OpenAI)) DEFAULT_OPENAI_URL) 0 None
      = (Inr (Some (plain_response 304 [])),
         [Fetch (or_else (targetUrl (lead_config OpenAI)) DEFAULT_OPENAI_URL)])"
    by (rule retry_loop_first) (simp_all add: fixed_runtime_def plain_response_def)
  have n: "\<not> ok (plain_response 401 ''bad key'')" "100 \<le> status (plain_response 401 ''bad key'')"
    "status (plain_response 401 ''bad key'') \<le> 999"
    by (simp_all add: ok_def plain_response_def)
  have n': "\<not> ok (plain_response 304 [])" "100 \<le> status (plain_response 304 [])"
    "status (plain_response 304 []) \<le> 999"
    by (simp_all add: ok_def plain_response_def)
  have 1: "response (snd (handle_messages (lead_config OpenAI) ?rt new_logger ''{}'')) =
     Some \<lparr>res_status = 401, res_content_type = ''application/json'',
           res_body = ErrorBody ''authentication_error'' ''bad key''\<rparr>"
    using openai_error_envelope[OF p teammate_request_translated o l n, of new_logger]
    by (simp add: plain_response_def)
  have 2: "response (snd (handle_messages (lead_config OpenAI) ?rt' new_logger ''{}'')) =
     Some \<lparr>res_status = 304, res_content_type = ''application/json'', res_body = NoBody\<rparr>"
    using openai_error_envelope[OF p' teammate_request_translated o l' n', of new_logger]
    by (simp add: plain_response_def)
  show ?thesis using 1 2 by simp
qed

section \<open>The non-streaming translator\<close>

lemma tool_use_blocks_total:
  assumes "\<forall>tc\<in>set tcs. json_error (or_else (tc_arguments tc) ''{}'') = None"
  shows "tool_use_blocks json_error tcs =
     Inr (map (\<lambda>tc. ToolUseBlock (tc_id tc) (tc_name tc) (or_else (tc_arguments tc) ''{}'')) tcs)"
  using assms by (induction tcs) (simp_all add: Let_def)

lemma nonStreaming_message:
  assumes "body_json r = Inr openaiRes"
    and "nonStreaming config json_error r = Inr answer"
  shows "\<exists>msg. answer = json_response 200 (MessageBody msg)
     \<and> stop_reason msg = stopReason (first_choice openaiRes)
     \<and> input_tokens msg =
         count_or_0 (case usage openaiRes of None \<Rightarrow> None | Some u \<Rightarrow> prompt_tokens u)
     \<and> output_tokens msg =
         count_or_0 (case usage openaiRes of None \<Rightarrow> None | Some u \<Rightarrow> completion_tokens u)"
  using assms by (auto simp: nonStreaming_def Let_def split: sum.splits)

lemma nonStreaming_total:
  assumes "body_json r = Inr openaiRes"
    and "\<forall>tc\<in>set (tool_calls_of openaiRes). json_error (or_else (tc_arguments tc) ''{}'') = None"
  shows "\<exists>answer. nonStreaming config json_error r = Inr answer"
proof -
  have "tool_use_blocks json_error (tool_calls_of openaiRes) =
     Inr (map (\<lambda>tc. ToolUseBlock (tc_id tc) (tc_name tc) (or_else (tc_arguments tc) ''{}''))
            (tool_calls_of openaiRes))"
    using assms(2) by (rule tool_use_blocks_total)
  then show ?thesis
    using assms(1)
    by (auto simp: nonStreaming_def tool_calls_of_def Let_def split: option.splits)
qed

text \<open>
  C6. For a non-streaming request on the Chat-Completions path and a 2xx upstream
  response whose body parses, every message the client is sent has the stop reason
  \<open>tool_use\<close> when the upstream's finish reason is \<open>tool_calls\<close>, \<open>max_tokens\<close>
  when it is \<open>length\<close> and \<open>end_turn\<close> for any other or no finish reason, and usage
  counts that are the upstream's, or zero where absent; and a message is sent whenever
  the arguments of every tool call parse.
\<close>

theorem nonstreaming_stop_reason:
  assumes "rt_parse rt body = Inr req"
    and "isPassthrough config req = Inr False"
    and "targetProvider config = OpenAI"
    and "stream req = Some False"
    and "retry_loop (rt_fetch rt) (or_else (targetUrl config) DEFAULT_OPENAI_URL) 0 None
           = (Inr (Some r), tr)"
    and "ok r"
    and "body_json r = Inr openaiRes"
  shows "(\<forall>msg. response (snd (handle_messages config rt lg body)) =
             Some (json_response 200 (MessageBody msg)) \<longrightarrow>
           stop_reason msg =
             (if finish_reason_of openaiRes = Some ''tool_calls'' then ''tool_use''
              else if finish_reason_of openaiRes = Some ''length'' then ''max_tokens''
              else ''end_turn'')
           \<and> input_tokens msg =
             (case usage openaiRes of
                None \<Rightarrow> 0
              | Some u \<Rightarrow> (case prompt_tokens u of None \<Rightarrow> 0 | Some n \<Rightarrow> n))
           \<and> output_tokens msg =
             (case usage openaiRes of
                None \<Rightarrow> 0
              | Some u \<Rightarrow> (case completion_tokens u of None \<Rightarrow> 0 | Some n \<Rightarrow> n)))
     \<and> ((\<forall>tc\<in>set (tool_calls_of openaiRes).
            rt_json_error rt (or_else (tc_arguments tc) ''{}'') = None) \<longrightarrow>
          (\<exists>msg. response (snd (handle_messages config rt lg body)) =
             Some (json_response 200 (MessageBody msg))))"
proof -
  have path: "openai_path config (rt_json_error rt) (isStreaming req) (rt_fetch rt) =
      (nonStreaming config (rt_json_error rt) r, TranslateRequest # tr)"
    using assms(4,5,6) by (simp add: openai_path_def openai_answer_def isStreaming_def)
  have whole: "snd (handle_messages config rt lg body) =
      settle rt (nonStreaming config (rt_json_error rt) r, TranslateRequest # tr)"
    using handle_messages_translated[OF assms(1,2), of lg] assms(3) path by simp
  have mapped: "stop_reason msg =
             (if finish_reason_of openaiRes = Some ''tool_calls'' then ''tool_use''
              else if finish_reason_of openaiRes = Some ''length'' then ''max_tokens''
              else ''end_turn'')
           \<and> input_tokens msg =
             (case usage openaiRes of
                None \<Rightarrow> 0
              | Some u \<Rightarrow> (case prompt_tokens u of None \<Rightarrow> 0 | Some n \<Rightarrow> n))
           \<and> output_tokens msg =
             (case usage openaiRes of
                None \<Rightarrow> 0
              | Some u \<Rightarrow> (case completion_tokens u of None \<Rightarrow> 0 | Some n \<Rightarrow> n))"
    if sent: "response (snd (handle_messages config rt lg body)) =
             Some (json_response 200 (MessageBody msg))" for msg
  proof (cases "nonStreaming config (rt_json_error rt) r")
    case (Inl e)
    then have "response (snd (handle_messages config rt lg body)) =
        catch_block False (rt_destroyed rt) False e"
      using whole by (simp add: settle_error)
    then show ?thesis
      using sent by (simp add: catch_block_def json_response_def split: if_splits)
  next
    case (Inr answer)
    then have "answer = json_response 200 (MessageBody msg)"
      using whole sent by (simp add: settle_answer)
    then obtain msg' where m: "json_response 200 (MessageBody msg) = json_response 200 (MessageBody msg')"
      "stop_reason msg' = stopReason (first_choice openaiRes)"
      "input_tokens msg' =
         count_or_0 (case usage openaiRes of None \<Rightarrow> None | Some u \<Rightarrow> prompt_tokens u)"
      "output_tokens msg' =
         count_or_0 (case usage openaiRes of None \<Rightarrow> None | Some u \<Rightarrow> completion_tokens u)"
      using nonStreaming_message[OF assms(7) Inr] by auto
    from m(1) have "msg' = msg" by (simp add: json_response_def)
    then show ?thesis
      using m(2,3,4)
      by (simp add: stopReason_def finish_reason_of_def count_or_0_def Let_def split: option.splits)
  qed
  have total: "\<exists>msg. response (snd (handle_messages config rt lg body)) =
             Some (json_response 200 (MessageBody msg))"
    if args: "\<forall>tc\<in>set (tool_calls_of openaiRes).
            rt_json_error rt (or_else (tc_arguments tc) ''{}'') = None"
  proof -
    obtain answer where a: "nonStreaming config (rt_json_error rt) r = Inr answer"
      using nonStreaming_total[OF assms(7) args, of config] by blast
    then obtain msg where "answer = json_response 200 (MessageBody msg)"
      using nonStreaming_message[OF assms(7) a] by blast
    then show ?thesis using whole a by (auto simp: settle_answer)
  qed
  show ?thesis using mapped total by blast
qed

theorem nonstreaming_stop_reason_witness:
  "\<exists>msg. response (snd (handle_messages (lead_config OpenAI)
        (fixed_runtime (Inr buffered_request) (completion tool_call_completion)) new_logger ''{}'')) =
           Some (json_response 200 (MessageBody msg))
     \<and> stop_reason msg = ''tool_use'' \<and> input_tokens msg = 0 \<and> output_tokens msg = 0"
proof -
  let ?rt = "fixed_runtime (Inr buffered_request) (completion tool_call_completion)"
  have p: "rt_parse ?rt ''{}'' = Inr buffered_request"
    by (simp add: fixed_runtime_def)
  have o: "targetProvider (lead_config OpenAI) = OpenAI"
    by (simp add: lead_config_def)
  have s: "stream buffered_request = Some False"
    by (simp add: buffered_request_def)
  have l: "retry_loop (rt_fetch ?rt) (or_else (targetUrl (lead_config OpenAI)) DEFAULT_OPENAI_URL) 0 None
      = (Inr (Some (completion tool_call_completion)),
         [Fetch (or_else (targetUrl (lead_config OpenAI)) DEFAULT_OPENAI_URL)])"
    by (rule retry_loop_first) (simp_all add: fixed_runtime_def completion_def)
  have k: "ok (completion tool_call_completion)"
    by (simp add: ok_def completion_def)
  have j: "body_json (completion tool_call_completion) = Inr tool_call_completion"
    by (simp add: completion_def)
  have a: "\<forall>tc\<in>set (tool_calls_of tool_call_completion).
           rt_json_error ?rt (or_else (tc_arguments tc) ''{}'') = None"
    by (simp add: fixed_runtime_def)
  have f: "finish_reason_of tool_call_completion = Some ''tool_calls''"
    by (simp add: finish_reason_of_def first_choice_def tool_call_completion_def)
  have u: "usage tool_call_completion = None"
    by (simp add: tool_call_completion_def)
  have sent: "\<exists>msg. response (snd (handle_messages (lead_config OpenAI) ?rt new_logger ''{}'')) =
           Some (json_response 200 (MessageBody msg))"
    using nonstreaming_stop_reason[OF p buffered_request_translated o s l k j, of new_logger,
        THEN conjunct2] a by blast
  then obtain msg where m: "response (snd (handle_messages (lead_config OpenAI) ?rt new_logger ''{}'')) =
           Some (json_response 200 (MessageBody msg))" by blast
  have "stop_reason msg = ''tool_use'' \<and> input_tokens msg = 0 \<and> output_tokens msg = 0"
    using nonstreaming_stop_reason[OF p buffered_request_translated o s l k j, of new_logger,
        THEN conjunct1] m by (simp add: f u)
  then show ?thesis using m by blast
qed

section \<open>The answer of the ChatGPT path\<close>

lemma chatgpt_answer_no_message:
  "chatgpt_answer config upstream = Inr answer \<Longrightarrow> res_body answer \<noteq> MessageBody msg"
  by (auto simp: chatgpt_answer_def json_response_def sse_response_def respond_def
      split: option.splits if_splits)

lemma catch_block_no_message:
  "catch_block w d h e = Some answer \<Longrightarrow> res_body answer \<noteq> MessageBody msg"
  by (auto simp: catch_block_def json_response_def split: if_splits)

lemma settle_message:
  assumes "response (settle rt (res, tr)) = Some answer" and "res_body answer = MessageBody msg"
  shows "res = Inr answer"
  using assms catch_block_no_message
  by (cases res) (auto simp: settle_def)

lemma handlePassthrough_no_message:
  "fst (handlePassthrough a url) = Inr answer \<Longrightarrow> res_body answer \<noteq> MessageBody msg"
  by (auto simp: handlePassthrough_def respond_def split: fetch_result.splits if_splits)

lemma chatgpt_path_no_message:
  "fst (chatgpt_path config fetch) = Inr answer \<Longrightarrow> res_body answer \<noteq> MessageBody msg"
  using chatgpt_answer_no_message
  by (auto simp: chatgpt_path_def split: prod.splits sum.splits)

lemma openai_path_message:
  assumes "fst (openai_path config json_error streaming fetch) = Inr answer"
    and "res_body answer = MessageBody msg"
  shows "\<not> streaming"
  using assms
  by (auto simp: openai_path_def openai_answer_def json_response_def sse_response_def
      respond_def split: prod.splits sum.splits option.splits if_splits)

text \<open>
  C10. On the ChatGPT path every 2xx upstream response with a body is answered as an
  event stream, status 200 and content type \<open>text/event-stream\<close>, written by the
  Responses stream translator, whatever the \<open>stream\<close> field of the request; and the
  handler sends a message built by the non-streaming translator only for a translated
  request on the Chat-Completions path that declared \<open>stream: false\<close>.
\<close>

theorem chatgpt_always_streams:
  assumes "rt_parse rt body = Inr req"
  shows "(isPassthrough config req = Inr False \<and> targetProvider config = ChatGPT
          \<and> retry_loop (rt_fetch rt) CHATGPT_API_URL 0 None = (Inr (Some r), tr)
          \<and> ok r \<and> has_body r \<longrightarrow>
            response (snd (handle_messages config rt lg body)) =
              Some \<lparr>res_status = 200, res_content_type = ''text/event-stream'',
                    res_body = EventStream TranslateResponsesStream (spoofModel config)\<rparr>)
     \<and> (\<forall>answer msg. response (snd (handle_messages config rt lg body)) = Some answer
            \<and> res_body answer = MessageBody msg \<longrightarrow>
          targetProvider config = OpenAI \<and> stream req = Some False
            \<and> isPassthrough config req = Inr False)"
proof -
  have sse: "response (snd (handle_messages config rt lg body)) =
              Some \<lparr>res_status = 200, res_content_type = ''text/event-stream'',
                    res_body = EventStream TranslateResponsesStream (spoofModel config)\<rparr>"
    if "isPassthrough config req = Inr False" "targetProvider config = ChatGPT"
      "retry_loop (rt_fetch rt) CHATGPT_API_URL 0 None = (Inr (Some r), tr)" "ok r" "has_body r"
  proof -
    have "chatgpt_path config (rt_fetch rt) =
        (Inr (sse_response TranslateResponsesStream (spoofModel config)),
         TranslateRequestToResponses # tr)"
      using that(3,4,5) by (simp add: chatgpt_path_def chatgpt_answer_def)
    then show ?thesis
      using handle_messages_translated[OF assms that(1), of lg] that(2)
      by (simp add: settle_answer sse_response_def)
  qed
  have only: "targetProvider config = OpenAI \<and> stream req = Some False
            \<and> isPassthrough config req = Inr False"
    if sent: "response (snd (handle_messages config rt lg body)) = Some answer"
      and msg: "res_body answer = MessageBody msg" for answer msg
  proof (cases "isPassthrough config req")
    case (Inl e)
    then have "response (snd (handle_messages config rt lg body)) =
        catch_block False (rt_destroyed rt) False e"
      using assms by (simp add: handle_messages_def settle_error)
    then show ?thesis using sent msg catch_block_no_message by fastforce
  next
    case (Inr p)
    show ?thesis
    proof (cases p)
      case True
      obtain res tr' where h: "handlePassthrough (rt_fetch rt 0)
          (normalizeAnthropicMessagesUrl (passthroughBaseUrl config req) False) = (res, tr')"
        by (cases "handlePassthrough (rt_fetch rt 0)
          (normalizeAnthropicMessagesUrl (passthroughBaseUrl config req) False)")
      have "snd (handle_messages config rt lg body) = settle rt (res, tr')"
        using assms Inr True h by (simp add: handle_messages_def split: prod.splits)
      then have "res = Inr answer"
        using settle_message sent msg by metis
      then have "fst (handlePassthrough (rt_fetch rt 0)
          (normalizeAnthropicMessagesUrl (passthroughBaseUrl config req) False)) = Inr answer"
        using h by simp
      then show ?thesis
        using handlePassthrough_no_message msg by blast
    next
      case False
      note tr = handle_messages_translated[OF assms, of config lg] Inr False
      show ?thesis
      proof (cases "targetProvider config")
        case ChatGPT
        obtain res tr' where h: "chatgpt_path config (rt_fetch rt) = (res, tr')"
          by (cases "chatgpt_path config (rt_fetch rt)")
        have "snd (handle_messages config rt lg body) = settle rt (res, tr')"
          using tr ChatGPT h by simp
        then have "res = Inr answer"
          using settle_message sent msg by metis
        then have "fst (chatgpt_path config (rt_fetch rt)) = Inr answer"
          using h by simp
        then show ?thesis
          using chatgpt_path_no_message msg by blast
      next
        case OpenAI
        obtain res tr' where h: "openai_path config (rt_json_error rt) (isStreaming req) (rt_fetch rt)
            = (res, tr')"
          by (cases "openai_path config (rt_json_error rt) (isStreaming req) (rt_fetch rt)")
        have "snd (handle_messages config rt lg body) = settle rt (res, tr')"
          using tr OpenAI h by simp
        then have "res = Inr answer"
          using settle_message sent msg by metis
        then have "\<not> isStreaming req"
          using openai_path_message[of config "rt_json_error rt" "isStreaming req" "rt_fetch rt" answer msg]
            h msg by simp
        then show ?thesis
          using OpenAI Inr False by (simp add: isStreaming_def)
      qed
    qed
  qed
  show ?thesis using sse only by blast
qed

theorem chatgpt_always_streams_witness:
  "stream buffered_request = Some False
   \<and> response (snd (handle_messages (lead_config ChatGPT)
        (fixed_runtime (Inr buffered_request) (plain_response 200 ''data: {}'')) new_logger ''{}'')) =
      Some \<lparr>res_status = 200, res_content_type = ''text/event-stream'',
            res_body = EventStream TranslateResponsesStream ''claude-sonnet''\<rparr>
   \<and> targetProvider (lead_config OpenAI) = OpenAI
   \<and> (\<exists>msg. response (snd (handle_messages (lead_config OpenAI)
        (fixed_runtime (Inr buffered_request) (completion tool_call_completion)) new_logger ''{}'')) =
           Some (json_response 200 (MessageBody msg)))"
proof -
  let ?rt = "fixed_runtime (Inr buffered_request) (plain_response 200 ''data: {}'')"
  let ?rt' = "fixed_runtime (Inr buffered_request) (completion tool_call_completion)"
  have p: "rt_parse ?rt ''{}'' = Inr buffered_request"
    by (simp add: fixed_runtime_def)
  have s: "stream buffered_request = Some False"
    by (simp add: buffered_request_def)
  have h: "isPassthrough (lead_config ChatGPT) buffered_request = Inr False
      \<and> targetProvider (lead_config ChatGPT) = ChatGPT
      \<and> retry_loop (rt_fetch ?rt) CHATGPT_API_URL 0 None
           = (Inr (Some (plain_response 200 ''data: {}'')), [Fetch CHATGPT_API_URL])
      \<and> ok (plain_response 200 ''data: {}'') \<and> has_body (plain_response 200 ''data: {}'')"
    using buffered_request_translated[of "lead_config ChatGPT"]
      retry_loop_first[of "rt_fetch ?rt" "plain_response 200 ''data: {}''" CHATGPT_API_URL]
    by (simp add: lead_config_def fixed_runtime_def plain_response_def ok_def)
  have 1: "response (snd (handle_messages (lead_config ChatGPT) ?rt new_logger ''{}'')) =
      Some \<lparr>res_status = 200, res_content_type = ''text/event-stream'',
            res_body = EventStream TranslateResponsesStream ''claude-sonnet''\<rparr>"
    using chatgpt_always_streams[OF p, of "lead_config ChatGPT" "plain_response 200 ''data: {}''"
        "[Fetch CHATGPT_API_URL]" new_logger, THEN conjunct1, THEN mp, OF h]
    by (simp add: lead_config_def)
  have p': "rt_parse ?rt' ''{}'' = Inr buffered_request"
    by (simp add: fixed_runtime_def)
  have l: "retry_loop (rt_fetch ?rt') (or_else (targetUrl (lead_config OpenAI)) DEFAULT_OPENAI_URL) 0 None
      = (Inr (Some (completion tool_call_completion)),
         [Fetch (or_else (targetUrl (lead_config OpenAI)) DEFAULT_OPENAI_URL)])"
    by (rule retry_loop_first) (simp_all add: fixed_runtime_def completion_def)
  have o: "targetProvider (lead_config OpenAI) = OpenAI"
    by (simp add: lead_config_def)
  have "openai_path (lead_config OpenAI) (rt_json_error ?rt') (isStreaming buffered_request) (rt_fetch ?rt')
      = (nonStreaming (lead_config OpenAI) (rt_json_error ?rt') (completion tool_call_completion),
         TranslateRequest # [Fetch (or_else (targetUrl (lead_config OpenAI)) DEFAULT_OPENAI_URL)])"
    using l s by (simp add: openai_path_def openai_answer_def isStreaming_def ok_def completion_def)
  moreover obtain answer where
    "nonStreaming (lead_config OpenAI) (rt_json_error ?rt') (completion tool_call_completion) = Inr answer"
    using nonStreaming_total[of "completion tool_call_completion" tool_call_completion
        "rt_json_error ?rt'" "lead_config OpenAI"]
    by (auto simp: completion_def fixed_runtime_def)
  moreover obtain msg where "answer = json_response 200 (MessageBody msg)"
    using nonStreaming_message[of "completion tool_call_completion" tool_call_completion
        "lead_config OpenAI" "rt_json_error ?rt'" answer] calculation(2)
    by (auto simp: completion_def)
  ultimately have sent: "response (snd (handle_messages (lead_config OpenAI) ?rt' new_logger ''{}'')) =
           Some (json_response 200 (MessageBody msg))"
    using handle_messages_translated[OF p' buffered_request_translated, of "lead_config OpenAI" new_logger] o
    by (simp add: settle_answer)
  have "targetProvider (lead_config OpenAI) = OpenAI"
    using chatgpt_always_streams[OF p', of "lead_config OpenAI" _ _ new_logger, THEN conjunct2] sent
    by (simp add: json_response_def)
  then show ?thesis using s 1 sent by blast
qed

section \<open>The token estimate and malformed bodies\<close>

lemma estimatedTokens_div: "estimatedTokens n = (n + 3) div 4"
proof -
  have "\<lceil>real n / 4\<rceil> = \<lceil>of_int (int n) / (of_int 4 :: real)\<rceil>" by simp
  also have "\<dots> = - (- int n div 4)" by (rule ceiling_divide_eq_div)
  also have "\<dots> = (int n + 3) div 4" by presburger
  finally have "\<lceil>real n / 4\<rceil> = int ((n + 3) div 4)" by (simp add: zdiv_int)
  then show ?thesis by (simp add: estimatedTokens_def)
qed

lemma estimatedTokens_ceiling: "int (estimatedTokens n) = \<lceil>real n / 4\<rceil>"
proof -
  have "0 \<le> \<lceil>real n / 4\<rceil>" by simp
  then show ?thesis unfolding estimatedTokens_def by simp
qed

text \<open>
  C9. A \<open>count_tokens\<close> request whose body parses and that is not passed through is
  answered 200 with an \<open>input_tokens\<close> that is the ceiling of a quarter of the length
  of the serialized messages, an absent \<open>messages\<close> field being serialized as the
  empty array; a serialization of 400 characters gives 100.
\<close>

theorem count_tokens_estimate:
  assumes "rt_parse rt body = Inr req" and "\<not> count_tokens_passthrough config req"
  shows "\<exists>n. count_tokens config rt body =
           \<lparr>response = Some \<lparr>res_status = 200, res_content_type = ''application/json'',
                              res_body = TokenCount n\<rparr>,
            effects = []\<rparr>
     \<and> int n = \<lceil>real (length (rt_stringify rt (case messages req of None \<Rightarrow> [] | Some ms \<Rightarrow> ms))) / 4\<rceil>
     \<and> length (rt_stringify rt (case messages req of None \<Rightarrow> [] | Some ms \<Rightarrow> ms)) \<le> 4 * n
     \<and> 4 * n < length (rt_stringify rt (case messages req of None \<Rightarrow> [] | Some ms \<Rightarrow> ms)) + 4
     \<and> (length (rt_stringify rt (case messages req of None \<Rightarrow> [] | Some ms \<Rightarrow> ms)) = 400
          \<longrightarrow> n = 100)"
proof -
  let ?len = "length (rt_stringify rt (case messages req of None \<Rightarrow> [] | Some ms \<Rightarrow> ms))"
  have "count_tokens config rt body =
           \<lparr>response = Some \<lparr>res_status = 200, res_content_type = ''application/json'',
                              res_body = TokenCount (estimatedTokens ?len)\<rparr>,
            effects = []\<rparr>"
    using assms by (simp add: count_tokens_def json_response_def)
  moreover have "int (estimatedTokens ?len) = \<lceil>real ?len / 4\<rceil>"
    by (rule estimatedTokens_ceiling)
  moreover have "?len \<le> 4 * estimatedTokens ?len" "4 * estimatedTokens ?len < ?len + 4"
    "?len = 400 \<longrightarrow> estimatedTokens ?len = 100"
    by (simp_all add: estimatedTokens_div)
  ultimately show ?thesis by blast
qed

lemma long_request_length:
  "length (plain_stringify (case messages long_request of None \<Rightarrow> [] | Some ms \<Rightarrow> ms)) = 400"
  by (simp add: long_request_def plain_stringify_def)

theorem count_tokens_estimate_witness:
  "length (plain_stringify (case messages long_request of None \<Rightarrow> [] | Some ms \<Rightarrow> ms)) = 400
   \<and> count_tokens (lead_config OpenAI) (plain_runtime (Inr long_request)) ''{}'' =
           \<lparr>response = Some \<lparr>res_status = 200, res_content_type = ''application/json'',
                              res_body = TokenCount 100\<rparr>,
            effects = []\<rparr>"
proof -
  have p: "rt_parse (plain_runtime (Inr long_request)) ''{}'' = Inr long_request"
    by (simp add: plain_runtime_def)
  have n: "\<not> count_tokens_passthrough (lead_config OpenAI) long_request"
    by (simp add: count_tokens_passthrough_def long_request_def lead_config_def
        shouldPassthrough_raw_def shouldPassthrough_def)
  have s: "rt_stringify (plain_runtime (Inr long_request)) = plain_stringify"
    by (simp add: plain_runtime_def)
  show ?thesis
    using count_tokens_estimate[OF p n] long_request_length unfolding s by auto
qed




section \<open>The session correlator\<close>

lemma bestMatch_loop_kept: "bestMatch_loop count xs (Some b) \<noteq> None"
proof (induction xs arbitrary: b)
  case Nil
  then show ?case by simp
next
  case (Cons x xs)
  obtain k s where x: "x = (k, s)" by (cases x)
  show ?case
    unfolding x using Cons.IH by (simp add: Let_def)
qed

lemma bestMatch_loop_none:
  "bestMatch_loop count xs None = None \<longleftrightarrow> (\<forall>(k, s) \<in> set xs. \<not> candidate count s)"
proof (induction xs)
  case Nil
  then show ?case by simp
next
  case (Cons x xs)
  obtain k s where x: "x = (k, s)" by (cases x)
  show ?case
  proof (cases "candidate count s")
    case True
    then show ?thesis
      unfolding x using bestMatch_loop_kept by (simp add: candidate_def gap_def Let_def)
  next
    case False
    then have "bestMatch_loop count ((k, s) # xs) None = bestMatch_loop count xs None"
      by (auto simp: candidate_def gap_def Let_def)
    then show ?thesis
      unfolding x using Cons.IH False by simp
  qed
qed

lemma bestMatch_loop_some:
  assumes "bestMatch_loop count xs best = Some ((k, s), d)"
  shows "(((k, s) \<in> set xs \<and> candidate count s \<and> d = gap count s) \<or> best = Some ((k, s), d))
     \<and> (\<forall>(k', s') \<in> set xs. candidate count s' \<longrightarrow> d \<le> gap count s')
     \<and> (\<forall>b bd. best = Some (b, bd) \<longrightarrow> d \<le> bd)"
  using assms
proof (induction xs arbitrary: best)
  case Nil
  then show ?case by simp
next
  case (Cons x xs)
  obtain k0 s0 where x: "x = (k0, s0)" by (cases x)
  let ?diff = "int count - int (lastMsgCount s0)"
  show ?case
  proof (cases "stype s0 = Teammate \<and> 0 \<le> ?diff \<and> ?diff \<le> 8
      \<and> (case best of None \<Rightarrow> True | Some (b, bestDiff) \<Rightarrow> ?diff < bestDiff)")
    case True
    then have "bestMatch_loop count xs (Some ((k0, s0), ?diff)) = Some ((k, s), d)"
      using Cons.prems x by (simp add: Let_def)
    from Cons.IH[OF this] True show ?thesis
      unfolding x by (auto simp: candidate_def gap_def split: option.splits)
  next
    case False
    then have "bestMatch_loop count xs best = Some ((k, s), d)"
      using Cons.prems x by (auto simp: Let_def split: if_splits)
    from Cons.IH[OF this] False show ?thesis
      unfolding x by (cases best) (auto simp: candidate_def gap_def)
  qed
qed

lemma set_session_absent:
  "k \<notin> fst ` set xs \<Longrightarrow> set_session k v xs = xs @ [(k, v)]"
  by (induction k v xs rule: set_session.induct) auto

lemma set_session_present:
  assumes "distinct (map fst xs)" and "(k, s) \<in> set xs"
  shows "set_session k v xs = map (\<lambda>(k', s'). if k' = k then (k, v) else (k', s')) xs"
  using assms
proof (induction k v xs rule: set_session.induct)
  case (1 k v)
  then show ?case by simp
next
  case (2 k v k' v' rest)
  show ?case
  proof (cases "k' = k")
    case True
    then have "k \<notin> fst ` set rest" using "2.prems"(1) by simp
    then have "map (\<lambda>(k', s'). if k' = k then (k, v) else (k', s')) rest = rest"
      by (induction rest) (auto simp: image_iff)
    then show ?thesis using True by simp
  next
    case False
    then have "(k, s) \<in> set rest" using "2.prems"(2) by simp
    then show ?thesis using False 2 by simp
  qed
qed

lemma set_session_keys:
  "map fst (set_session k v xs) = (if k \<in> fst ` set xs then map fst xs else map fst xs @ [k])"
  by (induction k v xs rule: set_session.induct) (auto simp: image_iff)

lemma set_session_set:
  "set (set_session k v xs) \<subseteq> insert (k, v) (set xs)"
  by (induction k v xs rule: set_session.induct) auto

lemma of_char_digit: "d < 10 \<Longrightarrow> of_char (digit d) = 48 + d"
  by (simp add: digit_def)

lemma decimal_value: "foldl (\<lambda>a c. 10 * a + (of_char c - 48)) 0 (decimal n) = n"
proof (induction n rule: decimal.induct)
  case (1 n)
  show ?case
  proof (cases "n < 10")
    case True
    then show ?thesis by (subst decimal.simps) (simp add: of_char_digit)
  next
    case False
    then have "foldl (\<lambda>a c. 10 * a + (of_char c - 48)) 0 (decimal (n div 10)) = n div 10"
      using 1 by simp
    then show ?thesis
      using False by (subst decimal.simps) (simp add: of_char_digit)
  qed
qed

lemma decimal_inj: "decimal m = decimal n \<Longrightarrow> m = n"
  by (metis decimal_value)

lemma teammate_key_fresh:
  assumes "logger_inv lg"
  shows "''T'' @ decimal (Suc (teammateIndex lg)) \<notin> fst ` set (sessions lg)"
proof
  assume "''T'' @ decimal (Suc (teammateIndex lg)) \<in> fst ` set (sessions lg)"
  then obtain s where "(''T'' @ decimal (Suc (teammateIndex lg)), s) \<in> set (sessions lg)"
    by auto
  then have "''T'' @ decimal (Suc (teammateIndex lg)) \<in> set (teammate_keys (teammateIndex lg))"
    using assms by (auto simp: logger_inv_def)
  then obtain i where i: "i \<in> set [1..<Suc (teammateIndex lg)]"
      "''T'' @ decimal (Suc (teammateIndex lg)) = ''T'' @ decimal i"
    unfolding teammate_keys_def by (metis (no_types, lifting) imageE list.set_map)
  from i(2) have "Suc (teammateIndex lg) = i" using decimal_inj by simp
  then show False using i(1) by simp
qed

lemma decimal_1: "decimal 1 = ''1''"
  by code_simp

lemma decimal_2: "decimal 2 = ''2''"
  by code_simp

lemma decimal_Suc_0: "decimal (Suc 0) = ''1''"
  using decimal_1 by simp

lemma decimal_Suc_Suc_0: "decimal (Suc (Suc 0)) = ''2''"
  using decimal_2 by (simp add: numeral_2_eq_2)

lemma teammate_keys_mono: "set (teammate_keys n) \<subseteq> set (teammate_keys (Suc n))"
  by (auto simp: teammate_keys_def)

lemma teammate_keys_last: "''T'' @ decimal (Suc n) \<in> set (teammate_keys (Suc n))"
  by (auto simp: teammate_keys_def)

lemma logger_inv_new: "logger_inv new_logger"
  by (simp add: logger_inv_def new_logger_def)

lemma logger_inv_set_session:
  assumes "logger_inv lg" and "key v = k"
    and "k = ''WARM'' \<or> k = ''LEAD'' \<or> k \<in> set (teammate_keys (teammateIndex lg))"
  shows "logger_inv (lg\<lparr>sessions := set_session k v (sessions lg)\<rparr>)"
proof -
  have "distinct (map fst (set_session k v (sessions lg)))"
    using assms(1) by (auto simp: set_session_keys logger_inv_def)
  moreover have "key s = k' \<and> (k' = ''WARM'' \<or> k' = ''LEAD''
        \<or> k' \<in> set (teammate_keys (teammateIndex lg)))"
    if "(k', s) \<in> set (set_session k v (sessions lg))" for k' s
  proof -
    have "(k', s) = (k, v) \<or> (k', s) \<in> set (sessions lg)"
      using that set_session_set by fastforce
    then show ?thesis
      using assms by (auto simp: logger_inv_def)
  qed
  ultimately show ?thesis
    by (auto simp: logger_inv_def)
qed

lemma logger_inv_getOrCreate:
  assumes "logger_inv lg"
    and "k = ''WARM'' \<or> k = ''LEAD'' \<or> k \<in> set (teammate_keys (teammateIndex lg))"
  shows "logger_inv (fst (getOrCreate lg k ty count lbl))"
proof -
  have "key s = k" if "map_of (sessions lg) k = Some s" for s
    using that assms(1) map_of_SomeD by (fastforce simp: logger_inv_def)
  then show ?thesis
    using assms
    by (auto simp: getOrCreate_def Let_def intro!: logger_inv_set_session split: option.splits)
qed

lemma logger_inv_identify:
  assumes "logger_inv lg"
  shows "logger_inv (fst (identify lg tools_n count teammate systemText))"
proof (cases "tools_n = 0 \<or> \<not> teammate")
  case True
  then show ?thesis
    using assms by (auto simp: identify_def intro: logger_inv_getOrCreate)
next
  case False
  show ?thesis
  proof (cases "bestMatch_loop count (sessions lg) None")
    case None
    have "logger_inv (lg\<lparr>teammateIndex := Suc (teammateIndex lg)\<rparr>)"
      using assms teammate_keys_mono by (fastforce simp: logger_inv_def)
    then have "logger_inv (fst (getOrCreate (lg\<lparr>teammateIndex := Suc (teammateIndex lg)\<rparr>)
        (''T'' @ decimal (Suc (teammateIndex lg))) Teammate count (extractName systemText)))"
      using teammate_keys_last by (intro logger_inv_getOrCreate) simp_all
    then show ?thesis
      using False None by (simp add: identify_def Let_def)
  next
    case (Some b)
    obtain k s d where b: "b = ((k, s), d)" by (cases b) auto
    have "(k, s) \<in> set (sessions lg)"
      using bestMatch_loop_some[of count "sessions lg" None k s d] Some b by simp
    then have "key s = k" "k = ''WARM'' \<or> k = ''LEAD'' \<or> k \<in> set (teammate_keys (teammateIndex lg))"
      using assms by (auto simp: logger_inv_def)
    then have "logger_inv (lg\<lparr>sessions := set_session k
        (s\<lparr>lastMsgCount := count, requestCount := requestCount s + 1\<rparr>) (sessions lg)\<rparr>)"
      using assms by (intro logger_inv_set_session) simp_all
    then show ?thesis
      using False Some b by (simp add: identify_def Let_def)
  qed
qed

text \<open>
  C8 as stated fails on the label: a new teammate whose system text names it is
  labelled with that name, not with the next sequential label.
\<close>

theorem teammate_label_counterexample:
  "snd (identify new_logger 1 4 True ''You are a teammate named bob.'') =
     \<lparr>key = ''T1'', label = ''bob'', stype = Teammate, lastMsgCount = 4, requestCount = 1\<rparr>
   \<and> label (snd (identify new_logger 1 4 True ''You are a teammate named bob.''))
       \<noteq> ''T'' @ decimal (teammateIndex new_logger + 1)"
  by code_simp

text \<open>
  C8, as amended. A request with tools and a teammate's system text attaches to an
  existing teammate session whose last message count is below the request's by a gap of
  0 to 8, one of the smallest such gap, which takes the request's count and one more
  request while the rest of the table stays as it is; when there is no such session, the teammate counter goes up by one and a new
  session is put last in the table under the next key, \<open>T\<close> followed by the counter,
  labelled with the name that \<open>extractName\<close> finds in the system text, or with the key
  when it finds none. From an empty table, counts 4 and then 6 share the session
  \<open>T1\<close>, and a following count of 30 is given the new session \<open>T2\<close>.
\<close>

theorem teammate_session_correlation:
  assumes "tools_n \<noteq> 0" and "teammate" and "logger_inv lg"
  shows "((\<exists>(k, s) \<in> set (sessions lg). candidate count s) \<longrightarrow>
          (\<exists>k s. (k, s) \<in> set (sessions lg) \<and> candidate count s
             \<and> (\<forall>(k', s') \<in> set (sessions lg). candidate count s' \<longrightarrow> gap count s \<le> gap count s')
             \<and> identify lg tools_n count teammate systemText =
                 (lg\<lparr>sessions := map (\<lambda>(k', s'). if k' = k then (k, attach count s) else (k', s'))
                                      (sessions lg)\<rparr>,
                  attach count s)))
     \<and> (\<not> (\<exists>(k, s) \<in> set (sessions lg). candidate count s) \<longrightarrow>
          identify lg tools_n count teammate systemText =
            (let k = ''T'' @ decimal (teammateIndex lg + 1);
                 new = \<lparr>key = k, label = or_else (extractName systemText) k, stype = Teammate,
                        lastMsgCount = count, requestCount = 1\<rparr>
             in (\<lparr>sessions = sessions lg @ [(k, new)], teammateIndex = teammateIndex lg + 1\<rparr>, new)))
     \<and> (case identify new_logger tools_n 4 teammate systemText of
          (lg1, s1) \<Rightarrow>
            (case identify lg1 tools_n 6 teammate systemText of
               (lg2, s2) \<Rightarrow>
                 (case identify lg2 tools_n 30 teammate systemText of
                    (lg3, s3) \<Rightarrow>
                      key s1 = ''T1'' \<and> key s2 = ''T1'' \<and> key s3 = ''T2''
                      \<and> map fst (sessions lg2) = [''T1'']
                      \<and> map fst (sessions lg3) = [''T1'', ''T2''])))"
proof -
  have found: "\<exists>k s. (k, s) \<in> set (sessions lg) \<and> candidate count s
             \<and> (\<forall>(k', s') \<in> set (sessions lg). candidate count s' \<longrightarrow> gap count s \<le> gap count s')
             \<and> identify lg tools_n count teammate systemText =
                 (lg\<lparr>sessions := map (\<lambda>(k', s'). if k' = k then (k, attach count s) else (k', s'))
                                      (sessions lg)\<rparr>,
                  attach count s)"
    if "\<exists>(k, s) \<in> set (sessions lg). candidate count s"
  proof -
    have "bestMatch_loop count (sessions lg) None \<noteq> None"
      using that bestMatch_loop_none[of count "sessions lg"] by blast
    then obtain k s d where b: "bestMatch_loop count (sessions lg) None = Some ((k, s), d)"
      by (cases "bestMatch_loop count (sessions lg) None") auto
    have "(k, s) \<in> set (sessions lg)" "candidate count s"
      "\<forall>(k', s') \<in> set (sessions lg). candidate count s' \<longrightarrow> gap count s \<le> gap count s'"
      using bestMatch_loop_some[OF b] by auto
    moreover have "identify lg tools_n count teammate systemText =
        (lg\<lparr>sessions := set_session k (attach count s) (sessions lg)\<rparr>, attach count s)"
      using assms(1,2) b by (simp add: identify_def attach_def Let_def)
    moreover have "set_session k (attach count s) (sessions lg) =
        map (\<lambda>(k', s'). if k' = k then (k, attach count s) else (k', s')) (sessions lg)"
      using assms(3) calculation(1) by (intro set_session_present) (simp_all add: logger_inv_def)
    ultimately show ?thesis by auto
  qed
  have fresh: "identify lg tools_n count teammate systemText =
            (let k = ''T'' @ decimal (teammateIndex lg + 1);
                 new = \<lparr>key = k, label = or_else (extractName systemText) k, stype = Teammate,
                        lastMsgCount = count, requestCount = 1\<rparr>
             in (\<lparr>sessions = sessions lg @ [(k, new)], teammateIndex = teammateIndex lg + 1\<rparr>, new))"
    if "\<not> (\<exists>(k, s) \<in> set (sessions lg). candidate count s)"
  proof -
    have none: "bestMatch_loop count (sessions lg) None = None"
      using that bestMatch_loop_none[of count "sessions lg"] by blast
    have absent: "''T'' @ decimal (Suc (teammateIndex lg)) \<notin> fst ` set (sessions lg)"
      using assms(3) by (rule teammate_key_fresh)
    then have "map_of (sessions lg) (''T'' @ decimal (Suc (teammateIndex lg))) = None"
      by (simp add: map_of_eq_None_iff)
    then show ?thesis
      using assms(1,2) none set_session_absent[OF absent]
      by (simp add: identify_def getOrCreate_def Let_def)
  qed
  have example: "(case identify new_logger tools_n 4 teammate systemText of
          (lg1, s1) \<Rightarrow>
            (case identify lg1 tools_n 6 teammate systemText of
               (lg2, s2) \<Rightarrow>
                 (case identify lg2 tools_n 30 teammate systemText of
                    (lg3, s3) \<Rightarrow>
                      key s1 = ''T1'' \<and> key s2 = ''T1'' \<and> key s3 = ''T2''
                      \<and> map fst (sessions lg2) = [''T1'']
                      \<and> map fst (sessions lg3) = [''T1'', ''T2''])))"
    using assms(1,2)
    by (simp add: identify_def getOrCreate_def new_logger_def Let_def decimal_Suc_0 decimal_Suc_Suc_0)
  show ?thesis using found fresh example by blast
qed

theorem teammate_session_correlation_witness:
  "identify new_logger 1 4 True ''You are a teammate named bob.'' =
     (\<lparr>sessions = [(''T1'', \<lparr>key = ''T1'', label = ''bob'', stype = Teammate,
                              lastMsgCount = 4, requestCount = 1\<rparr>)],
       teammateIndex = 1\<rparr>,
      \<lparr>key = ''T1'', label = ''bob'', stype = Teammate, lastMsgCount = 4, requestCount = 1\<rparr>)
   \<and> identify \<lparr>sessions = [(''T1'', \<lparr>key = ''T1'', label = ''bob'', stype = Teammate,
                                        lastMsgCount = 4, requestCount = 1\<rparr>)],
                teammateIndex = 1\<rparr> 1 6 True ''You are a teammate named bob.'' =
     (\<lparr>sessions = [(''T1'', \<lparr>key = ''T1'', label = ''bob'', stype = Teammate,
                              lastMsgCount = 6, requestCount = 2\<rparr>)],
       teammateIndex = 1\<rparr>,
      \<lparr>key = ''T1'', label = ''bob'', stype = Teammate, lastMsgCount = 6, requestCount = 2\<rparr>)"
proof -
  let ?st = "''You are a teammate named bob.''"
  let ?bob = "\<lparr>key = ''T1'', label = ''bob'', stype = Teammate, lastMsgCount = 4, requestCount = 1\<rparr>"
  let ?lg = "\<lparr>sessions = [(''T1'', ?bob)], teammateIndex = 1\<rparr>"
  have t: "(1::nat) \<noteq> 0" "True" by simp_all
  have name: "extractName ?st = Some ''bob''"
    by code_simp
  have none: "\<not> (\<exists>(k, s) \<in> set (sessions new_logger). candidate 4 s)"
    by (simp add: new_logger_def)
  have 1: "identify new_logger 1 4 True ?st = (?lg, ?bob)"
    using teammate_session_correlation[OF t logger_inv_new, of 4 ?st, THEN conjunct2, THEN conjunct1]
      none name
    by (simp add: new_logger_def or_else_def decimal_Suc_0 Let_def)
  have inv: "logger_inv ?lg"
    by (simp add: logger_inv_def teammate_keys_def decimal_Suc_0)
  have some: "\<exists>(k, s) \<in> set (sessions ?lg). candidate 6 s"
    by (simp add: candidate_def gap_def)
  have 2: "identify ?lg 1 6 True ?st =
     (\<lparr>sessions = [(''T1'', ?bob\<lparr>lastMsgCount := 6, requestCount := 2\<rparr>)], teammateIndex = 1\<rparr>,
      ?bob\<lparr>lastMsgCount := 6, requestCount := 2\<rparr>)"
    using teammate_session_correlation[OF t inv, of 6 ?st, THEN conjunct1] some
    by (auto simp: attach_def)
  show ?thesis using 1 2 by simp
qed

section \<open>Routing of \<open>count_tokens\<close>\<close>







end
